theory Spec2Isabelle
  imports Main "HOL-Library.AList"
begin

section \<open>The runtime: values, exceptions, strings\<close>

text \<open>
  The server (\<^verbatim>\<open>src/server/server.js\<close>) handles values that come out of \<^verbatim>\<open>JSON.parse\<close>
  and out of the catalog's JSON responses, so a value is a JSON value or \<^verbatim>\<open>undefined\<close>.
  A number is carried by the text \<^verbatim>\<open>String(n)\<close> gives for it: the code only tests numbers
  for truth and renders them into strings. An object is the list of its own enumerable
  properties in enumeration order: the properties whose name is an array index first, by
  ascending index, then the others in the order they were added.

  A \<^typ>\<open>char\<close> stands for one UTF-16 code unit in the range 0 to 255, so the string
  functions below are those of the runtime on strings over that range.
\<close>

datatype jsval =
    JUndefined
  | JNull
  | JBool bool
  | JNum string
  | JStr string
  | JArr "jsval list"
  | JObj "(string \<times> jsval) list"

text \<open>What a \<^verbatim>\<open>throw\<close> or a rejected promise carries.\<close>

datatype exn = TypeError | SyntaxError | RemoteError

text \<open>\<^verbatim>\<open>if (v)\<close>, \<^verbatim>\<open>a || b\<close>, \<^verbatim>\<open>a && b\<close>: the falsy values are \<^verbatim>\<open>undefined\<close>, \<^verbatim>\<open>null\<close>,
  \<^verbatim>\<open>false\<close>, zero, \<^verbatim>\<open>NaN\<close> and the empty string.\<close>

fun truthy :: "jsval \<Rightarrow> bool" where
  "truthy JUndefined = False"
| "truthy JNull = False"
| "truthy (JBool b) = b"
| "truthy (JNum n) = (n \<noteq> ''0'' \<and> n \<noteq> ''NaN'')"
| "truthy (JStr s) = (s \<noteq> [])"
| "truthy (JArr xs) = True"
| "truthy (JObj kvs) = True"

text \<open>\<^verbatim>\<open>v.k\<close> for the property names the server reads (\<^verbatim>\<open>language\<close>, \<^verbatim>\<open>with_cast_names\<close>,
  \<^verbatim>\<open>id\<close>, \<^verbatim>\<open>name\<close>, \<^verbatim>\<open>content\<close>, ...), none of which a prototype defines: reading
  a property of \<^verbatim>\<open>undefined\<close> or \<^verbatim>\<open>null\<close> throws, an object gives its own property,
  every other value gives \<^verbatim>\<open>undefined\<close>.\<close>

fun get_prop :: "jsval \<Rightarrow> string \<Rightarrow> exn + jsval" where
  "get_prop JUndefined k = Inl TypeError"
| "get_prop JNull k = Inl TypeError"
| "get_prop (JObj kvs) k = Inr (case map_of kvs k of Some v \<Rightarrow> v | None \<Rightarrow> JUndefined)"
| "get_prop v k = Inr JUndefined"

text \<open>\<^verbatim>\<open>q.k = v\<close> and \<^verbatim>\<open>delete q.k\<close> on the query object. The names the server assigns
  there (\<^verbatim>\<open>with_cast\<close>, \<^verbatim>\<open>with_keywords\<close>) are not array indices, so a new property goes last.\<close>

fun put_prop :: "jsval \<Rightarrow> string \<Rightarrow> jsval \<Rightarrow> jsval" where
  "put_prop (JObj kvs) k v = JObj (AList.update k v kvs)"
| "put_prop q k v = q"

fun delete_prop :: "jsval \<Rightarrow> string \<Rightarrow> jsval" where
  "delete_prop (JObj kvs) k = JObj (AList.delete k kvs)"
| "delete_prop q k = q"

fun join_strs :: "string \<Rightarrow> string list \<Rightarrow> string" where
  "join_strs sep [] = []"
| "join_strs sep [x] = x"
| "join_strs sep (x # y # ys) = x @ sep @ join_strs sep (y # ys)"

text \<open>\<^verbatim>\<open>String(v)\<close>, which a template literal and \<^verbatim>\<open>encodeURIComponent\<close> apply to their
  argument. An array renders as its elements joined by commas, \<^verbatim>\<open>undefined\<close> and
  \<^verbatim>\<open>null\<close> elements as the empty string. An object renders through the \<^verbatim>\<open>toString\<close> it
  finds: the inherited one gives \<^verbatim>\<open>[object Object]\<close>; an own property of that name is a
  JSON value, which cannot be called, and then the conversion throws (the fallback
  \<^verbatim>\<open>valueOf\<close> gives no primitive value either). \<open>render_elems\<close> renders the elements of an
  array, the first exception winning.\<close>

fun to_string :: "jsval \<Rightarrow> exn + string"
  and render_elems :: "jsval list \<Rightarrow> exn + string list" where
  "to_string JUndefined = Inr ''undefined''"
| "to_string JNull = Inr ''null''"
| "to_string (JBool b) = Inr (if b then ''true'' else ''false'')"
| "to_string (JNum n) = Inr n"
| "to_string (JStr s) = Inr s"
| "to_string (JArr xs) =
     (case render_elems xs of Inl e \<Rightarrow> Inl e | Inr ps \<Rightarrow> Inr (join_strs '','' ps))"
| "to_string (JObj kvs) =
     (if ''toString'' \<in> fst ` set kvs then Inl TypeError else Inr ''[object Object]'')"
| "render_elems [] = Inr []"
| "render_elems (x # xs) =
     (case (if x = JUndefined \<or> x = JNull then Inr [] else to_string x) of
        Inl e \<Rightarrow> Inl e
      | Inr p \<Rightarrow> (case render_elems xs of Inl e \<Rightarrow> Inl e | Inr ps \<Rightarrow> Inr (p # ps)))"

text \<open>\<^verbatim>\<open>xs.join(sep)\<close>.\<close>

definition js_join :: "string \<Rightarrow> jsval list \<Rightarrow> exn + string" where
  "js_join sep xs =
     (case render_elems xs of Inl e \<Rightarrow> Inl e | Inr ps \<Rightarrow> Inr (join_strs sep ps))"

text \<open>\<^verbatim>\<open>s.split(c)\<close> for a one-character separator: the empty string splits into one
  empty piece.\<close>

fun split_on :: "char \<Rightarrow> string \<Rightarrow> string list" where
  "split_on c [] = [[]]"
| "split_on c (x # xs) =
     (if x = c then [] # split_on c xs
      else (case split_on c xs of [] \<Rightarrow> [[x]] | p # ps \<Rightarrow> (x # p) # ps))"

text \<open>White space and line terminators, which \<^verbatim>\<open>trim()\<close> strips and \<^verbatim>\<open>\s\<close> matches:
  tab, line feed, vertical tab, form feed, carriage return, space, no-break space.\<close>

definition is_space :: "char \<Rightarrow> bool" where
  "is_space c =
     (c = CHR 0x09 \<or> c = CHR 0x0A \<or> c = CHR 0x0B \<or> c = CHR 0x0C \<or> c = CHR 0x0D \<or>
      c = CHR 0x20 \<or> c = CHR 0xA0)"

definition trim :: "string \<Rightarrow> string" where
  "trim s = rev (dropWhile is_space (rev (dropWhile is_space s)))"

text \<open>The line terminators: \<^verbatim>\<open>.\<close> does not match them, and with the \<^verbatim>\<open>m\<close> flag \<^verbatim>\<open>$\<close>
  matches before one.\<close>

definition is_line_terminator :: "char \<Rightarrow> bool" where
  "is_line_terminator c = (c = CHR 0x0A \<or> c = CHR 0x0D)"

text \<open>\<^verbatim>\<open>s.toLowerCase()\<close>: the letters A to Z, and the capital letters of Latin-1 (0xC0 to
  0xDE but the multiplication sign 0xD7).\<close>

definition lower_char :: "char \<Rightarrow> char" where
  "lower_char c =
     (let n = (of_char c :: nat) in
      if (65 \<le> n \<and> n \<le> 90) \<or> (192 \<le> n \<and> n \<le> 222 \<and> n \<noteq> 215) then char_of (n + 32) else c)"

definition toLowerCase :: "string \<Rightarrow> string" where
  "toLowerCase s = map lower_char s"

text \<open>\<^verbatim>\<open>encodeURIComponent(s)\<close>: letters, digits and \<^verbatim>\<open>- _ . ! ~ * ' ( )\<close> stay, every
  other code unit becomes the percent-escapes of its UTF-8 bytes (one byte below 0x80, two
  from 0x80 to 0xFF).\<close>

definition hex_digit :: "nat \<Rightarrow> char" where
  "hex_digit n = ''0123456789ABCDEF'' ! (n mod 16)"

definition percent :: "nat \<Rightarrow> string" where
  "percent n = [CHR ''%'', hex_digit (n div 16), hex_digit n]"

definition unreserved :: "char \<Rightarrow> bool" where
  "unreserved c =
     (let n = (of_char c :: nat) in
      (65 \<le> n \<and> n \<le> 90) \<or> (97 \<le> n \<and> n \<le> 122) \<or> (48 \<le> n \<and> n \<le> 57) \<or>
      c \<in> set ''-_.!~*()'' \<or> c = CHR 0x27)"

definition encode_unit :: "char \<Rightarrow> string" where
  "encode_unit c =
     (let n = (of_char c :: nat) in
      if unreserved c then [c]
      else if n < 128 then percent n
      else percent (192 + n div 64) @ percent (128 + n mod 64))"

definition encodeURIComponent :: "string \<Rightarrow> string" where
  "encodeURIComponent s = concat (map encode_unit s)"

text \<open>The decimal name of an array index, and the own enumerable properties a
  \<^verbatim>\<open>for (key in v)\<close> loop or a spread \<^verbatim>\<open>{...v}\<close> visits: an object's properties, the
  indexed elements of an array or of a string, nothing for the other values.\<close>

function index_name :: "nat \<Rightarrow> string" where
  "index_name n =
     (if n < 10 then [hex_digit n] else index_name (n div 10) @ [hex_digit (n mod 10)])"
  by pat_completeness auto
termination
  by (relation "measure id") auto

definition indexed :: "jsval list \<Rightarrow> (string \<times> jsval) list" where
  "indexed xs = zip (map index_name [0..<length xs]) xs"

fun own_entries :: "jsval \<Rightarrow> (string \<times> jsval) list" where
  "own_entries (JObj kvs) = kvs"
| "own_entries (JArr xs) = indexed xs"
| "own_entries (JStr s) = indexed (map (\<lambda>c. JStr [c]) s)"
| "own_entries v = []"

text \<open>\<^verbatim>\<open>o[k] = v\<close> on an object under construction, for any name \<open>k\<close>. An array index is
  the decimal name, without a leading zero, of a number below 4294967295; a new property
  of such a name goes before the indices above it and before every other name.\<close>

definition index_number :: "string \<Rightarrow> int" where
  "index_number k = foldl (\<lambda>n c. 10 * n + (of_char c - 48)) 0 k"

definition is_array_index :: "string \<Rightarrow> bool" where
  "is_array_index k =
     (k \<noteq> [] \<and> list_all (\<lambda>c. 48 \<le> (of_char c :: nat) \<and> (of_char c :: nat) \<le> 57) k \<and>
      (k = ''0'' \<or> 49 \<le> (of_char (hd k) :: nat)) \<and> index_number k < 4294967295)"

fun insert_index :: "string \<Rightarrow> jsval \<Rightarrow> (string \<times> jsval) list \<Rightarrow> (string \<times> jsval) list" where
  "insert_index k v [] = [(k, v)]"
| "insert_index k v ((k', v') # kvs) =
     (if is_array_index k' \<and> index_number k' < index_number k then (k', v') # insert_index k v kvs
      else (k, v) # (k', v') # kvs)"

definition set_own :: "string \<Rightarrow> jsval \<Rightarrow> (string \<times> jsval) list \<Rightarrow> (string \<times> jsval) list" where
  "set_own k v kvs =
     (if is_array_index k \<and> k \<notin> fst ` set kvs then insert_index k v kvs
      else AList.update k v kvs)"

section \<open>The outside world\<close>

text \<open>
  The language model and the catalog are remote services. A prompt is carried by the
  values the server interpolates into its template, not by the template's text.
  A run is given the answers of the remote services as functions of the request:
  \<^item> \<open>chat_create\<close>: what \<^verbatim>\<open>response.choices[0].message.content\<close> holds, or the
    exception when the call rejects or the response has no such string;
  \<^item> \<open>axios_get\<close>: the catalog's answer in the shape its interface has: for a genre
    list the array \<^verbatim>\<open>data.genres\<close>, for a search or a discovery the array \<^verbatim>\<open>data.results\<close>
    (the empty list also stands for a response without results), or the exception when
    the request rejects or the response has no such array to read;
  \<^item> \<open>JSON_parse\<close>: the runtime's \<^verbatim>\<open>JSON.parse\<close>, which throws on a text that is not JSON.
  Every function below returns, beside its result, the remote calls it made, in order.
\<close>

datatype prompt =
    ClassifierPrompt
  | QueryPrompt string "(string \<times> jsval) list" string
  | SummaryPrompt string jsval "jsval list"
  | AssistantPrompt

datatype chat_message = System prompt | User jsval | Given jsval

record chat_request =
  model :: string
  messages :: "chat_message list"
  temperature :: string
  max_tokens :: nat

datatype call = Chat chat_request | Get string

record world =
  TMDB_API_KEY :: string
  today :: string
  chat_create :: "chat_request \<Rightarrow> exn + string"
  axios_get :: "string \<Rightarrow> exn + jsval list"
  JSON_parse :: "string \<Rightarrow> exn + jsval"

section \<open>The genre cache\<close>

text \<open>\<^verbatim>\<open>let movieGenreMap = {}; let tvGenreMap = {};\<close>\<close>

record genre_cache =
  movieGenreMap :: "(string \<times> jsval) list"
  tvGenreMap :: "(string \<times> jsval) list"

text \<open>The reducer \<^verbatim>\<open>map[genre.name.toLowerCase()] = genre.id\<close>: it throws when a genre is
  \<^verbatim>\<open>null\<close> or its name is not a string; assigning to \<^verbatim>\<open>__proto__\<close> adds no property.\<close>

fun genre_reduce :: "(string \<times> jsval) list \<Rightarrow> jsval list \<Rightarrow> exn + (string \<times> jsval) list" where
  "genre_reduce m [] = Inr m"
| "genre_reduce m (genre # genres) =
     (case get_prop genre ''name'' of
        Inl e \<Rightarrow> Inl e
      | Inr (JStr name) \<Rightarrow>
          (case get_prop genre ''id'' of
             Inl e \<Rightarrow> Inl e
           | Inr i \<Rightarrow>
               genre_reduce
                 (if toLowerCase name = ''__proto__'' then m
                  else set_own (toLowerCase name) i m) genres)
      | Inr _ \<Rightarrow> Inl TypeError)"

definition movieGenreUrl :: "world \<Rightarrow> string" where
  "movieGenreUrl w =
     ''https://api.themoviedb.org/3/genre/movie/list?api_key='' @ TMDB_API_KEY w @ ''&language=en-US''"

definition tvGenreUrl :: "world \<Rightarrow> string" where
  "tvGenreUrl w =
     ''https://api.themoviedb.org/3/genre/tv/list?api_key='' @ TMDB_API_KEY w @ ''&language=en-US''"

text \<open>\<^verbatim>\<open>(await axios.get(url)).data.genres.reduce(..., {})\<close>: the new map, built apart from
  the cached one, or the exception of the request or of the reducer.\<close>

definition fetch_genre_map :: "world \<Rightarrow> string \<Rightarrow> exn + (string \<times> jsval) list" where
  "fetch_genre_map w url =
     (case axios_get w url of Inl e \<Rightarrow> Inl e | Inr genres \<Rightarrow> genre_reduce [] genres)"

text \<open>\<^verbatim>\<open>fetchGenresFromTMDB\<close>: one \<^verbatim>\<open>try\<close> around both fetches; each map is assigned as
  soon as its own response has been reduced; the \<^verbatim>\<open>catch\<close> only logs.\<close>

definition fetchGenresFromTMDB :: "world \<Rightarrow> genre_cache \<Rightarrow> genre_cache \<times> call list" where
  "fetchGenresFromTMDB w st =
     (case fetch_genre_map w (movieGenreUrl w) of
        Inl e \<Rightarrow> (st, [Get (movieGenreUrl w)])
      | Inr m \<Rightarrow>
          (let st1 = st\<lparr>movieGenreMap := m\<rparr> in
           case fetch_genre_map w (tvGenreUrl w) of
             Inl e \<Rightarrow> (st1, [Get (movieGenreUrl w), Get (tvGenreUrl w)])
           | Inr t \<Rightarrow> (st1\<lparr>tvGenreMap := t\<rparr>, [Get (movieGenreUrl w), Get (tvGenreUrl w)])))"

section \<open>Helpers\<close>

text \<open>\<^verbatim>\<open>text.replace(/```json\s*/, '')\<close>: the leftmost \<^verbatim>\<open>```json\<close> goes, with the white space
  after it.\<close>

fun remove_open_fence :: "string \<Rightarrow> string" where
  "remove_open_fence [] = []"
| "remove_open_fence (c # cs) =
     (if take 7 (c # cs) = ''```json'' then dropWhile is_space (drop 7 (c # cs))
      else c # remove_open_fence cs)"

text \<open>\<^verbatim>\<open>.replace(/```\s*$/, '')\<close>: the leftmost \<^verbatim>\<open>```\<close> that only white space separates from
  the end of the text goes, with that white space.\<close>

fun remove_close_fence :: "string \<Rightarrow> string" where
  "remove_close_fence [] = []"
| "remove_close_fence (c # cs) =
     (if take 3 (c # cs) = ''```'' \<and> list_all is_space (drop 3 (c # cs)) then []
      else c # remove_close_fence cs)"

text \<open>\<^verbatim>\<open>.replace(/\/\/.*$/gm, '')\<close>: on every line, the text from the first \<^verbatim>\<open>//\<close> to the
  end of the line goes.\<close>

function strip_comments :: "string \<Rightarrow> string" where
  "strip_comments [] = []"
| "strip_comments [c] = [c]"
| "strip_comments (c # d # cs) =
     (if c = CHR ''/'' \<and> d = CHR ''/''
      then strip_comments (dropWhile (\<lambda>x. \<not> is_line_terminator x) cs)
      else c # strip_comments (d # cs))"
  by pat_completeness auto
termination
  by (relation "measure length") (auto simp: length_dropWhile_le less_Suc_eq_le le_SucI)

definition sanitizeAIResponse :: "string \<Rightarrow> string" where
  "sanitizeAIResponse text_in =
     (let sanitized = trim (remove_close_fence (remove_open_fence text_in))
      in trim (strip_comments sanitized))"

section \<open>The pipeline\<close>

text \<open>1) \<^verbatim>\<open>classifyRequest\<close>: the whole body is in a \<^verbatim>\<open>try\<close> whose \<^verbatim>\<open>catch\<close> returns
  \<^verbatim>\<open>"none"\<close>.\<close>

definition classifier_request :: "jsval \<Rightarrow> chat_request" where
  "classifier_request userMessage =
     \<lparr>model = ''gpt-4o'', messages = [System ClassifierPrompt, User userMessage],
      temperature = ''0'', max_tokens = 1\<rparr>"

definition classifyRequest :: "world \<Rightarrow> jsval \<Rightarrow> (exn + string) \<times> call list" where
  "classifyRequest w userMessage =
     (let request = classifier_request userMessage
      in (case chat_create w request of
            Inl e \<Rightarrow> Inr ''none''
          | Inr content \<Rightarrow>
              (let classification = toLowerCase (trim content) in
               if classification = ''movie'' then Inr ''movie''
               else if classification = ''tv'' then Inr ''tv''
               else Inr ''none''),
          [Chat request]))"

text \<open>2) \<^verbatim>\<open>generateTMDBQuery\<close>: an inner \<^verbatim>\<open>try\<close> around \<^verbatim>\<open>JSON.parse\<close> and an outer one
  around the whole body both return \<^verbatim>\<open>{}\<close>; a text that parses is returned as parsed.
  The prompt lists the cached genres with their ids, so building it throws, before the
  model is called, when an id does not render.\<close>

definition query_request :: "world \<Rightarrow> genre_cache \<Rightarrow> jsval \<Rightarrow> string \<Rightarrow> chat_request" where
  "query_request w st userMessage requestType =
     (let selectedGenreMap = (if requestType = ''movie'' then movieGenreMap st else tvGenreMap st)
      in \<lparr>model = ''gpt-4o'',
          messages =
            [System (QueryPrompt (if requestType = ''movie'' then ''movies'' else ''TV shows'')
                       selectedGenreMap (today w)),
             User userMessage],
          temperature = ''0.2'', max_tokens = 300\<rparr>)"

definition generateTMDBQuery ::
  "world \<Rightarrow> genre_cache \<Rightarrow> jsval \<Rightarrow> string \<Rightarrow> (exn + jsval) \<times> call list" where
  "generateTMDBQuery w st userMessage requestType =
     (let selectedGenreMap = (if requestType = ''movie'' then movieGenreMap st else tvGenreMap st);
          request = query_request w st userMessage requestType
      in if list_ex (\<lambda>(name, i). isl (to_string i)) selectedGenreMap then (Inr (JObj []), [])
         else
           (case chat_create w request of
              Inl e \<Rightarrow> Inr (JObj [])
            | Inr content \<Rightarrow>
                (let rawAnswer = trim content;
                     sanitizedAnswer = sanitizeAIResponse rawAnswer
                 in case JSON_parse w sanitizedAnswer of
                      Inl parseError \<Rightarrow> Inr (JObj [])
                    | Inr queryParams \<Rightarrow> Inr queryParams),
            [Chat request]))"

text \<open>2.1) \<^verbatim>\<open>fetchActorIdsByNames\<close> and 2.2) \<^verbatim>\<open>fetchKeywordIdsByNames\<close>: one search per
  name, each in its own \<^verbatim>\<open>try\<close>; the first result's \<^verbatim>\<open>id\<close> is pushed when there is a
  result. The search URL is built inside the \<^verbatim>\<open>try\<close>: when the language does not render,
  no request is made for the name.\<close>

definition first_id :: "exn + jsval list \<Rightarrow> jsval list" where
  "first_id resp =
     (case resp of
        Inl e \<Rightarrow> []
      | Inr [] \<Rightarrow> []
      | Inr (r # rs) \<Rightarrow> (case get_prop r ''id'' of Inl e \<Rightarrow> [] | Inr i \<Rightarrow> [i]))"

definition personUrl :: "world \<Rightarrow> string \<Rightarrow> jsval \<Rightarrow> exn + string" where
  "personUrl w name language =
     (case to_string language of
        Inl e \<Rightarrow> Inl e
      | Inr l \<Rightarrow>
          Inr (''https://api.themoviedb.org/3/search/person?api_key='' @ TMDB_API_KEY w @ ''&query='' @
               encodeURIComponent name @ ''&language='' @ l @ ''&include_adult=false''))"

definition keywordUrl :: "world \<Rightarrow> string \<Rightarrow> string" where
  "keywordUrl w kName =
     ''https://api.themoviedb.org/3/search/keyword?api_key='' @ TMDB_API_KEY w @ ''&query='' @
     encodeURIComponent kName @ ''&page=1''"

fun fetchActorIdsByNames :: "world \<Rightarrow> string list \<Rightarrow> jsval \<Rightarrow> jsval list \<times> call list" where
  "fetchActorIdsByNames w [] language = ([], [])"
| "fetchActorIdsByNames w (name # names) language =
     (let (ids, calls) = fetchActorIdsByNames w names language
      in case personUrl w name language of
           Inl e \<Rightarrow> (ids, calls)
         | Inr url \<Rightarrow> (first_id (axios_get w url) @ ids, Get url # calls))"

fun fetchKeywordIdsByNames :: "world \<Rightarrow> string list \<Rightarrow> jsval list \<times> call list" where
  "fetchKeywordIdsByNames w [] = ([], [])"
| "fetchKeywordIdsByNames w (kName # names) =
     (let found = first_id (axios_get w (keywordUrl w kName));
          (ids, calls) = fetchKeywordIdsByNames w names
      in (found @ ids, Get (keywordUrl w kName) # calls))"

text \<open>3) \<^verbatim>\<open>fetchFromTMDB\<close>, block by block. The query object is changed in place, and the
  endpoint echoes it afterwards, so every block returns the query it leaves.\<close>

text \<open>\<^verbatim>\<open>const languageParam = queryParams.language || "en-US"\<close>\<close>

definition languageParam_of :: "jsval \<Rightarrow> exn + jsval" where
  "languageParam_of queryParams =
     (case get_prop queryParams ''language'' of
        Inl e \<Rightarrow> Inl e
      | Inr l \<Rightarrow> Inr (if truthy l then l else JStr ''en-US''))"

text \<open>3a) the cast names. \<^verbatim>\<open>.split\<close> exists on strings only; \<^verbatim>\<open>.join\<close> throws when an id
  does not render.\<close>

definition resolve_cast_names :: "world \<Rightarrow> jsval \<Rightarrow> jsval \<Rightarrow> (exn + jsval) \<times> call list" where
  "resolve_cast_names w queryParams languageParam =
     (case get_prop queryParams ''with_cast_names'' of
        Inl e \<Rightarrow> (Inl e, [])
      | Inr names \<Rightarrow>
          if truthy names then
            (case names of
               JStr s \<Rightarrow>
                 (let namesArr = map trim (split_on (CHR '','') s);
                      (actorIds, calls) = fetchActorIdsByNames w namesArr languageParam
                  in if actorIds \<noteq> [] then
                       (case js_join '','' actorIds of
                          Inl e \<Rightarrow> (Inl e, calls)
                        | Inr joined \<Rightarrow>
                            (Inr (delete_prop (put_prop queryParams ''with_cast'' (JStr joined))
                                    ''with_cast_names''), calls))
                     else (Inr (delete_prop queryParams ''with_cast_names''), calls))
             | _ \<Rightarrow> (Inl TypeError, []))
          else (Inr queryParams, []))"

text \<open>\<^verbatim>\<open>[...new Set(xs)]\<close>: the elements in order of first occurrence. A \<^verbatim>\<open>Set\<close> holds a
  primitive value once (a string and a number are never the same value) and tells
  objects apart by identity; the ids of two responses are never the same object.\<close>

fun same_value_zero :: "jsval \<Rightarrow> jsval \<Rightarrow> bool" where
  "same_value_zero (JArr xs) v = False"
| "same_value_zero (JObj kvs) v = False"
| "same_value_zero u v = (u = v)"

definition new_Set :: "jsval list \<Rightarrow> jsval list" where
  "new_Set xs = foldl (\<lambda>acc x. if list_ex (same_value_zero x) acc then acc else acc @ [x]) [] xs"

text \<open>3b) the keyword names.\<close>

definition resolve_keyword_names :: "world \<Rightarrow> jsval \<Rightarrow> (exn + jsval) \<times> call list" where
  "resolve_keyword_names w queryParams =
     (case get_prop queryParams ''with_keywords_names'' of
        Inl e \<Rightarrow> (Inl e, [])
      | Inr names \<Rightarrow>
          if truthy names then
            (case names of
               JStr s \<Rightarrow>
                 (let kwNamesArr = map trim (split_on (CHR '','') s);
                      (keywordIds, calls) = fetchKeywordIdsByNames w kwNamesArr
                  in if keywordIds \<noteq> [] then
                       (case get_prop queryParams ''with_keywords'' of
                          Inl e \<Rightarrow> (Inl e, calls)
                        | Inr kw \<Rightarrow>
                            if truthy kw then
                              (case kw of
                                 JStr t \<Rightarrow>
                                   (let existing = map trim (split_on (CHR ''|'') t)
                                    in case js_join ''|'' (new_Set (map JStr existing @ keywordIds)) of
                                         Inl e \<Rightarrow> (Inl e, calls)
                                       | Inr combined \<Rightarrow>
                                           (Inr (delete_prop
                                                   (put_prop queryParams ''with_keywords'' (JStr combined))
                                                   ''with_keywords_names''), calls))
                               | _ \<Rightarrow> (Inl TypeError, calls))
                            else
                              (case js_join ''|'' keywordIds of
                                 Inl e \<Rightarrow> (Inl e, calls)
                               | Inr joined \<Rightarrow>
                                   (Inr (delete_prop
                                           (put_prop queryParams ''with_keywords'' (JStr joined))
                                           ''with_keywords_names''), calls)))
                     else (Inr (delete_prop queryParams ''with_keywords_names''), calls))
             | _ \<Rightarrow> (Inl TypeError, []))
          else (Inr queryParams, []))"

text \<open>The table of recognized parameters.\<close>

definition mappings :: "(string \<times> string) list" where
  "mappings =
     [(''query'', ''query''),
      (''with_genres'', ''with_genres''),
      (''with_cast'', ''with_cast''),
      (''with_crew'', ''with_crew''),
      (''primary_release_date_gte'', ''primary_release_date.gte''),
      (''primary_release_date_lte'', ''primary_release_date.lte''),
      (''first_air_date_gte'', ''first_air_date.gte''),
      (''first_air_date_lte'', ''first_air_date.lte''),
      (''vote_average_gte'', ''vote_average.gte''),
      (''vote_average_lte'', ''vote_average.lte''),
      (''vote_count_gte'', ''vote_count.gte''),
      (''sort_by'', ''sort_by''),
      (''with_original_language'', ''with_original_language''),
      (''year'', ''year''),
      (''with_keywords'', ''with_keywords''),
      (''with_runtime_gte'', ''with_runtime.gte''),
      (''with_runtime_lte'', ''with_runtime.lte'')]"

text \<open>\<^verbatim>\<open>mappings\<close> is an object literal, so \<^verbatim>\<open>mappings[key]\<close> also finds what
  \<^verbatim>\<open>Object.prototype\<close> defines: functions and, under \<^verbatim>\<open>__proto__\<close>, the prototype object
  itself, all of them truthy. The table gives the text each renders to in the template
  literal that builds the URL.\<close>

definition Object_prototype :: "(string \<times> string) list" where
  "Object_prototype =
     [(''constructor'', ''function Object() { [native code] }''),
      (''__defineGetter__'', ''function __defineGetter__() { [native code] }''),
      (''__defineSetter__'', ''function __defineSetter__() { [native code] }''),
      (''hasOwnProperty'', ''function hasOwnProperty() { [native code] }''),
      (''__lookupGetter__'', ''function __lookupGetter__() { [native code] }''),
      (''__lookupSetter__'', ''function __lookupSetter__() { [native code] }''),
      (''isPrototypeOf'', ''function isPrototypeOf() { [native code] }''),
      (''propertyIsEnumerable'', ''function propertyIsEnumerable() { [native code] }''),
      (''toString'', ''function toString() { [native code] }''),
      (''valueOf'', ''function valueOf() { [native code] }''),
      (''__proto__'', ''[object Object]''),
      (''toLocaleString'', ''function toLocaleString() { [native code] }'')]"

definition mappings_get :: "string \<Rightarrow> string option" where
  "mappings_get key =
     (case map_of mappings key of Some v \<Rightarrow> Some v | None \<Rightarrow> map_of Object_prototype key)"

text \<open>The loop \<^verbatim>\<open>for (const key in queryParams)\<close>: the pairs it appends, in order, or the
  exception of a value that does not render.\<close>

fun recognized_params :: "(string \<times> jsval) list \<Rightarrow> exn + (string \<times> string) list" where
  "recognized_params [] = Inr []"
| "recognized_params ((key, v) # rest) =
     (case mappings_get key of
        Some tmdbKey \<Rightarrow>
          if truthy v then
            (case to_string v of
               Inl e \<Rightarrow> Inl e
             | Inr t \<Rightarrow>
                 (case recognized_params rest of
                    Inl e \<Rightarrow> Inl e
                  | Inr ps \<Rightarrow> Inr ((tmdbKey, encodeURIComponent t) # ps)))
          else recognized_params rest
      | None \<Rightarrow> recognized_params rest)"

text \<open>The URL: the credential, the language as it renders, then the pairs of the loop.\<close>

definition build_url :: "world \<Rightarrow> string \<Rightarrow> jsval \<Rightarrow> jsval \<Rightarrow> exn + string" where
  "build_url w endpoint languageParam queryParams =
     (case to_string languageParam of
        Inl e \<Rightarrow> Inl e
      | Inr l \<Rightarrow>
          (case recognized_params (own_entries queryParams) of
             Inl e \<Rightarrow> Inl e
           | Inr ps \<Rightarrow>
               Inr (''https://api.themoviedb.org/3/'' @ endpoint @ ''?api_key='' @ TMDB_API_KEY w @
                    ''&language='' @ l @
                    concat (map (\<lambda>(tmdbKey, v). ''&'' @ tmdbKey @ ''='' @ v) ps))))"

text \<open>\<^verbatim>\<open>{...result, media_type: ...}\<close>\<close>

definition stamp :: "string \<Rightarrow> jsval \<Rightarrow> jsval" where
  "stamp requestType result =
     JObj (AList.update ''media_type'' (JStr (if requestType = ''movie'' then ''movie'' else ''tv''))
             (own_entries result))"

text \<open>The function up to its \<^verbatim>\<open>try\<close>: the request URL and the query as the blocks above
  leave it, or the exception one of them throws (nothing catches it here).\<close>

definition prepare_request ::
  "world \<Rightarrow> jsval \<Rightarrow> string \<Rightarrow> (exn + string \<times> jsval) \<times> call list" where
  "prepare_request w queryParams0 requestType =
     (let queryParams = (if queryParams0 = JUndefined then JObj [] else queryParams0);
          endpoint = (if requestType = ''movie'' then ''discover/movie'' else ''discover/tv'')
      in case languageParam_of queryParams of
           Inl e \<Rightarrow> (Inl e, [])
         | Inr languageParam \<Rightarrow>
             (case resolve_cast_names w queryParams languageParam of
                (Inl e, c1) \<Rightarrow> (Inl e, c1)
              | (Inr q1, c1) \<Rightarrow>
                  (case resolve_keyword_names w q1 of
                     (Inl e, c2) \<Rightarrow> (Inl e, c1 @ c2)
                   | (Inr q2, c2) \<Rightarrow>
                       (case build_url w endpoint languageParam q2 of
                          Inl e \<Rightarrow> (Inl e, c1 @ c2)
                        | Inr baseUrl \<Rightarrow> (Inr (baseUrl, q2), c1 @ c2)))))"

text \<open>The \<^verbatim>\<open>try\<close>: one request; its \<^verbatim>\<open>catch\<close> returns \<^verbatim>\<open>[]\<close>.\<close>

definition fetchFromTMDB ::
  "world \<Rightarrow> jsval \<Rightarrow> string \<Rightarrow> (exn + jsval list \<times> jsval) \<times> call list" where
  "fetchFromTMDB w queryParams0 requestType =
     (case prepare_request w queryParams0 requestType of
        (Inl e, calls) \<Rightarrow> (Inl e, calls)
      | (Inr (baseUrl, queryParams), calls) \<Rightarrow>
          (case axios_get w baseUrl of
             Inl e \<Rightarrow> (Inr ([], queryParams), calls @ [Get baseUrl])
           | Inr results \<Rightarrow>
               (Inr (map (stamp requestType) results, queryParams), calls @ [Get baseUrl])))"

text \<open>4) \<^verbatim>\<open>refineResultsWithAI\<close>: the whole body is in a \<^verbatim>\<open>try\<close>. Building the prompt
  throws, before the model is called, when one of the first five items is \<^verbatim>\<open>null\<close> or
  \<^verbatim>\<open>undefined\<close>, or when one of the values it interpolates (seven per item, then the user's
  message) does not render.\<close>

definition own_or_undefined :: "jsval \<Rightarrow> string \<Rightarrow> jsval" where
  "own_or_undefined item k = (case get_prop item k of Inl e \<Rightarrow> JUndefined | Inr v \<Rightarrow> v)"

definition item_fields :: "jsval \<Rightarrow> exn + jsval list" where
  "item_fields item =
     (case get_prop item ''title'' of
        Inl e \<Rightarrow> Inl e
      | Inr title \<Rightarrow>
          Inr [if truthy title then title else own_or_undefined item ''name'',
               if truthy (own_or_undefined item ''release_date'')
               then own_or_undefined item ''release_date''
               else if truthy (own_or_undefined item ''first_air_date'')
               then own_or_undefined item ''first_air_date''
               else JStr ''N/A'',
               own_or_undefined item ''overview'',
               own_or_undefined item ''vote_average'',
               own_or_undefined item ''vote_count'',
               own_or_undefined item ''id'',
               own_or_undefined item ''popularity''])"

definition renders :: "jsval \<Rightarrow> bool" where
  "renders v = (\<not> isl (to_string v))"

definition prompt_renders :: "jsval \<Rightarrow> jsval list \<Rightarrow> bool" where
  "prompt_renders originalUserMessage topResults =
     (list_all (\<lambda>item. case item_fields item of Inl e \<Rightarrow> False | Inr vs \<Rightarrow> list_all renders vs)
        topResults \<and>
      renders originalUserMessage)"

definition no_matches :: "string \<Rightarrow> string" where
  "no_matches requestType =
     ''I couldn'' @ [CHR 0x27] @ ''t find any '' @
     (if requestType = ''movie'' then ''movies'' else ''TV shows'') @
     '' matching your criteria. Please try a different request.''"

definition summary_request :: "jsval \<Rightarrow> jsval list \<Rightarrow> string \<Rightarrow> chat_request" where
  "summary_request originalUserMessage topResults requestType =
     \<lparr>model = ''gpt-4o'',
      messages = [System (SummaryPrompt (if requestType = ''movie'' then ''movie'' else ''TV show'')
                            originalUserMessage topResults)],
      temperature = ''0.3'', max_tokens = 500\<rparr>"

definition refineResultsWithAI ::
  "world \<Rightarrow> jsval \<Rightarrow> jsval list \<Rightarrow> string \<Rightarrow> (exn + string) \<times> call list" where
  "refineResultsWithAI w originalUserMessage tmdbResults requestType =
     (if tmdbResults = [] then (Inr (no_matches requestType), [])
      else
        (let topResults = take 5 tmdbResults in
         if \<not> prompt_renders originalUserMessage topResults
         then (Inr ''Sorry, I had trouble analyzing the results.'', [])
         else
           (let request = summary_request originalUserMessage topResults requestType
            in (case chat_create w request of
                  Inl e \<Rightarrow> Inr ''Sorry, I had trouble analyzing the results.''
                | Inr content \<Rightarrow> Inr (trim content),
                [Chat request]))))"

text \<open>5) \<^verbatim>\<open>generateNormalResponse\<close>: the model is given the whole history.\<close>

definition assistant_request :: "jsval list \<Rightarrow> chat_request" where
  "assistant_request msgs =
     \<lparr>model = ''gpt-4o'', messages = System AssistantPrompt # map Given msgs,
      temperature = ''0.7'', max_tokens = 1024\<rparr>"

definition generateNormalResponse :: "world \<Rightarrow> jsval list \<Rightarrow> (exn + string) \<times> call list" where
  "generateNormalResponse w msgs =
     (let request = assistant_request msgs
      in (case chat_create w request of
            Inl e \<Rightarrow> Inr (''Sorry, I couldn'' @ [CHR 0x27] @ ''t process your request at the moment.'')
          | Inr content \<Rightarrow> Inr (trim content),
          [Chat request]))"

section \<open>The endpoint\<close>

text \<open>
  \<^verbatim>\<open>app.post("/api/respond", ...)\<close>. The request body gives \<^verbatim>\<open>messages\<close> as a list, or
  not at all. The handler answers with a status and a JSON payload, or its promise
  rejects: the last message's \<^verbatim>\<open>content\<close> is read before the \<^verbatim>\<open>try\<close> begins.
\<close>

datatype outcome = Responded nat jsval | Rejected exn

definition respond :: "world \<Rightarrow> genre_cache \<Rightarrow> jsval list option \<Rightarrow> outcome \<times> call list" where
  "respond w st body_messages =
     (case body_messages of
        None \<Rightarrow> (Responded 400 (JObj [(''error'', JStr ''No messages provided'')]), [])
      | Some [] \<Rightarrow> (Responded 400 (JObj [(''error'', JStr ''No messages provided'')]), [])
      | Some (m # ms) \<Rightarrow>
          (case get_prop (last (m # ms)) ''content'' of
             Inl e \<Rightarrow> (Rejected e, [])
           | Inr userMessage \<Rightarrow>
               (case classifyRequest w userMessage of
                  (Inl e, c1) \<Rightarrow>
                    (Responded 500 (JObj [(''error'', JStr ''Failed to complete the response.'')]), c1)
                | (Inr requestType, c1) \<Rightarrow>
                    if requestType = ''movie'' \<or> requestType = ''tv'' then
                      (case generateTMDBQuery w st userMessage requestType of
                         (Inl e, c2) \<Rightarrow>
                           (Responded 500 (JObj [(''error'', JStr ''Failed to complete the response.'')]),
                            c1 @ c2)
                       | (Inr queryParams, c2) \<Rightarrow>
                           (case fetchFromTMDB w queryParams requestType of
                              (Inl e, c3) \<Rightarrow>
                                (Responded 500 (JObj [(''error'', JStr ''Failed to complete the response.'')]),
                                 c1 @ c2 @ c3)
                            | (Inr (tmdbResults, queryParams'), c3) \<Rightarrow>
                                (case refineResultsWithAI w userMessage tmdbResults requestType of
                                   (Inl e, c4) \<Rightarrow>
                                     (Responded 500
                                        (JObj [(''error'', JStr ''Failed to complete the response.'')]),
                                      c1 @ c2 @ c3 @ c4)
                                 | (Inr refinedAnswer, c4) \<Rightarrow>
                                     (Responded 200
                                        (JObj [(''response'', JStr refinedAnswer),
                                               (''tmdbData'', JArr tmdbResults),
                                               (''queryParams'', queryParams'),
                                               (''requestType'', JStr requestType)]),
                                      c1 @ c2 @ c3 @ c4))))
                    else
                      (case generateNormalResponse w (m # ms) of
                         (Inl e, c2) \<Rightarrow>
                           (Responded 500 (JObj [(''error'', JStr ''Failed to complete the response.'')]),
                            c1 @ c2)
                       | (Inr normalResponse, c2) \<Rightarrow>
                           (Responded 200 (JObj [(''response'', JStr normalResponse)]), c1 @ c2)))))"

section \<open>What the statements below speak about\<close>

text \<open>The names of the parameters a request URL carries: the pieces of its query part
  between \<^verbatim>\<open>&\<close>, each up to its \<^verbatim>\<open>=\<close>. The names the allow-list lets through are the
  credential, the language and the right-hand sides of \<open>mappings\<close>.\<close>

definition url_param_names :: "string \<Rightarrow> string list" where
  "url_param_names url =
     map (takeWhile (\<lambda>c. c \<noteq> CHR ''=''))
       (split_on (CHR ''&'') (drop 1 (dropWhile (\<lambda>c. c \<noteq> CHR ''?'') url)))"

definition allowed_names :: "string list" where
  "allowed_names = ''api_key'' # ''language'' # map snd mappings"

text \<open>A text whose lines carry line comments, and the same text inside a fence that names
  its language: \<open>annotated\<close> joins the lines \<open>l // c\<close> (or \<open>l\<close> alone) with line feeds,
  \<open>fenced\<close> wraps a body with white space around it. A plain line holds no backquote and
  no two slashes in a row; a plain comment holds neither a backquote nor a line terminator;
  a line that carries a comment does not end with a slash (the comment would begin there).\<close>

fun annotate_line :: "string \<Rightarrow> string option \<Rightarrow> string" where
  "annotate_line l None = l"
| "annotate_line l (Some c) = l @ ''//'' @ c"

definition join_lines :: "string list \<Rightarrow> string" where
  "join_lines ls = join_strs [CHR 0x0A] ls"

definition annotated :: "(string \<times> string option) list \<Rightarrow> string" where
  "annotated lcs = join_lines (map (\<lambda>(l, c). annotate_line l c) lcs)"

definition fenced :: "string \<Rightarrow> string \<Rightarrow> string \<Rightarrow> string \<Rightarrow> string" where
  "fenced ws1 body ws2 ws3 = ''```json'' @ ws1 @ body @ ws2 @ ''```'' @ ws3"

fun has_line_comment :: "string \<Rightarrow> bool" where
  "has_line_comment (c # d # cs) = ((c = CHR ''/'' \<and> d = CHR ''/'') \<or> has_line_comment (d # cs))"
| "has_line_comment cs = False"

definition plain_text :: "string \<Rightarrow> bool" where
  "plain_text l = (list_all (\<lambda>x. x \<noteq> CHR 0x60) l \<and> \<not> has_line_comment l)"

definition plain_comment :: "string option \<Rightarrow> bool" where
  "plain_comment c =
     (case c of
        None \<Rightarrow> True
      | Some t \<Rightarrow> list_all (\<lambda>x. x \<noteq> CHR 0x60 \<and> \<not> is_line_terminator x) t)"

definition plain_line :: "string \<times> string option \<Rightarrow> bool" where
  "plain_line lc =
     (case lc of
        (l, None) \<Rightarrow> plain_text l
      | (l, Some t) \<Rightarrow> plain_text l \<and> plain_comment (Some t) \<and> (l = [] \<or> last l \<noteq> CHR ''/''))"

section \<open>Concrete worlds and inputs\<close>

text \<open>A world in which every remote call fails and no text parses.\<close>

definition offline :: world where
  "offline =
     \<lparr>TMDB_API_KEY = ''k'', today = ''2025-01-01'',
      chat_create = (\<lambda>r. Inl RemoteError), axios_get = (\<lambda>u. Inl RemoteError),
      JSON_parse = (\<lambda>s. Inl SyntaxError)\<rparr>"

text \<open>A world in which the catalog serves the film genres and nothing else.\<close>

definition tv_down :: world where
  "tv_down =
     offline\<lparr>axios_get := (\<lambda>u.
       if u = ''https://api.themoviedb.org/3/genre/movie/list?api_key=k&language=en-US''
       then Inr [JObj [(''id'', JNum ''28''), (''name'', JStr ''Action'')]]
       else Inl RemoteError)\<rparr>"

definition cached :: genre_cache where
  "cached =
     \<lparr>movieGenreMap = [(''drama'', JNum ''18'')], tvGenreMap = [(''comedy'', JNum ''35'')]\<rparr>"

text \<open>A world in which the keyword search knows \<^verbatim>\<open>superhero\<close> under the number 9715, as the
  catalog's JSON gives it.\<close>

definition keyword_world :: world where
  "keyword_world =
     offline\<lparr>axios_get := (\<lambda>u.
       if u = ''https://api.themoviedb.org/3/search/keyword?api_key=k&query=superhero&page=1''
       then Inr [JObj [(''id'', JNum ''9715''), (''name'', JStr ''superhero'')]]
       else Inl RemoteError)\<rparr>"

definition keyword_query :: jsval where
  "keyword_query =
     JObj [(''with_keywords'', JStr ''9715''), (''with_keywords_names'', JStr ''superhero'')]"

text \<open>A world in which the person search finds one of two names.\<close>

definition cast_world :: world where
  "cast_world =
     offline\<lparr>axios_get := (\<lambda>u.
       if u = ''https://api.themoviedb.org/3/search/person?api_key=k&query=Tom%20Hanks&language=en-US&include_adult=false''
       then Inr [JObj [(''id'', JNum ''31''), (''name'', JStr ''Tom Hanks'')]]
       else if u = ''https://api.themoviedb.org/3/search/person?api_key=k&query=Nobody&language=en-US&include_adult=false''
       then Inr []
       else Inl RemoteError)\<rparr>"

definition cast_query :: jsval where
  "cast_query = JObj [(''with_cast_names'', JStr ''Tom Hanks, Nobody'')]"

text \<open>A world in which the model classifies every message as a film request and answers
  every other prompt with \<^verbatim>\<open>{}\<close>, and the catalog is down.\<close>

definition discovery_down :: world where
  "discovery_down =
     offline\<lparr>chat_create := (\<lambda>r.
                case messages r of
                  [System ClassifierPrompt, u] \<Rightarrow> Inr ''movie''
                | _ \<Rightarrow> Inr ''{}''),
             JSON_parse := (\<lambda>s. if s = ''{}'' then Inr (JObj []) else Inl SyntaxError)\<rparr>"

text \<open>The same world, but every message is classified as a series request.\<close>

definition series_discovery_down :: world where
  "series_discovery_down =
     discovery_down\<lparr>chat_create := (\<lambda>r.
                case messages r of
                  [System ClassifierPrompt, u] \<Rightarrow> Inr ''tv''
                | _ \<Rightarrow> Inr ''{}'')\<rparr>"

text \<open>A world in which the model classifies every message as a film request and answers
  every other prompt with \<^verbatim>\<open>null\<close>, which \<^verbatim>\<open>JSON.parse\<close> reads as the value \<^verbatim>\<open>null\<close>, and the
  catalog is down.\<close>

definition null_world :: world where
  "null_world =
     offline\<lparr>chat_create := (\<lambda>r.
                case messages r of
                  [System ClassifierPrompt, u] \<Rightarrow> Inr ''movie''
                | _ \<Rightarrow> Inr ''null''),
             JSON_parse := (\<lambda>s. if s = ''null'' then Inr JNull else Inl SyntaxError)\<rparr>"

text \<open>Two more queries: one whose cast names are the empty string, one that comes with a
  cast filter and a name the catalog does not know.\<close>

definition empty_cast_query :: jsval where
  "empty_cast_query = JObj [(''with_cast_names'', JStr [])]"

definition stale_cast_query :: jsval where
  "stale_cast_query = JObj [(''with_cast'', JStr ''500''), (''with_cast_names'', JStr ''Nobody'')]"

text \<open>A world in which the model answers every prompt with \<^verbatim>\<open>Movie\<close>.\<close>

definition capital_world :: world where
  "capital_world = offline\<lparr>chat_create := (\<lambda>r. Inr ''Movie'')\<rparr>"

text \<open>A world in which the model answers with one letter per message it was given.\<close>

definition counting_world :: world where
  "counting_world = offline\<lparr>chat_create := (\<lambda>r. Inr (map (\<lambda>m. CHR ''x'') (messages r)))\<rparr>"

definition user_says :: "string \<Rightarrow> jsval" where
  "user_says s = JObj [(''role'', JStr ''user''), (''content'', JStr s)]"

text \<open>The text of a JSON object that asks for the films of one year, the object it denotes,
  and that text as a model may wrap it: in a fence that names its language, and in a fence
  that does not.\<close>

definition year_text :: string where
  "year_text = ''{'' @ [CHR 0x22] @ ''year'' @ [CHR 0x22] @ '': 1999}''"

definition year_query :: jsval where
  "year_query = JObj [(''year'', JNum ''1999'')]"

definition tagged_fence :: string where
  "tagged_fence = ''```json'' @ [CHR 0x0A] @ year_text @ [CHR 0x0A] @ ''```''"

definition untagged_fence :: string where
  "untagged_fence = ''```'' @ [CHR 0x0A] @ year_text @ [CHR 0x0A] @ ''```''"

text \<open>A world in which the model gives one answer to every prompt, and \<^verbatim>\<open>JSON.parse\<close> reads
  the text above and throws on every other text.\<close>

definition answering :: "string \<Rightarrow> world" where
  "answering answer =
     offline\<lparr>chat_create := (\<lambda>r. Inr answer),
             JSON_parse := (\<lambda>s. if s = year_text then Inr year_query else Inl SyntaxError)\<rparr>"

section \<open>The genre cache: refresh\<close>

lemma lower_Action: "toLowerCase ''Action'' = ''action''"
  by code_simp

text \<open>
  Claim C2, as stated, fails: when the film genres arrive and the series request fails,
  the refresh has already replaced the film mapping, so after the failed refresh the
  previously cached directory is not unchanged.
\<close>

theorem refresh_partial_counterexample:
  "fetch_genre_map tv_down (tvGenreUrl tv_down) = Inl RemoteError \<and>
   movieGenreMap cached \<noteq> [] \<and>
   fst (fetchGenresFromTMDB tv_down cached) =
     \<lparr>movieGenreMap = [(''action'', JNum ''28'')], tvGenreMap = [(''comedy'', JNum ''35'')]\<rparr> \<and>
   fst (fetchGenresFromTMDB tv_down cached) \<noteq> cached"
  by (simp add: fetchGenresFromTMDB_def fetch_genre_map_def tv_down_def offline_def cached_def
      movieGenreUrl_def tvGenreUrl_def lower_Action set_own_def)

text \<open>
  Claim C2, amended: the refresh replaces each mapping wholesale as soon as its own
  fetch has succeeded. When the film fetch fails, both mappings are left untouched; when
  the film fetch succeeds and the series fetch fails, the film mapping is the new one and
  the series mapping is left untouched; when both succeed, both are the new ones. A
  mapping is always its previous value or a complete new one, never a partial rebuild.
\<close>

theorem refresh_replaces_each_map_after_its_own_fetch:
  "(\<forall>e. fetch_genre_map w (movieGenreUrl w) = Inl e \<longrightarrow>
      fst (fetchGenresFromTMDB w st) = st) \<and>
   (\<forall>m e. fetch_genre_map w (movieGenreUrl w) = Inr m \<and>
          fetch_genre_map w (tvGenreUrl w) = Inl e \<longrightarrow>
      fst (fetchGenresFromTMDB w st) = st\<lparr>movieGenreMap := m\<rparr>) \<and>
   (\<forall>m t. fetch_genre_map w (movieGenreUrl w) = Inr m \<and>
          fetch_genre_map w (tvGenreUrl w) = Inr t \<longrightarrow>
      fst (fetchGenresFromTMDB w st) = st\<lparr>movieGenreMap := m, tvGenreMap := t\<rparr>)"
  by (simp add: fetchGenresFromTMDB_def Let_def)

theorem refresh_replaces_each_map_witness:
  "fetch_genre_map offline (movieGenreUrl offline) = Inl RemoteError \<and>
   fst (fetchGenresFromTMDB offline cached) = cached \<and>
   fetch_genre_map tv_down (movieGenreUrl tv_down) = Inr [(''action'', JNum ''28'')] \<and>
   fetch_genre_map tv_down (tvGenreUrl tv_down) = Inl RemoteError \<and>
   fst (fetchGenresFromTMDB tv_down cached) = cached\<lparr>movieGenreMap := [(''action'', JNum ''28'')]\<rparr>"
proof -
  have a: "fetch_genre_map offline (movieGenreUrl offline) = Inl RemoteError"
    by (simp add: fetch_genre_map_def offline_def)
  have b: "fetch_genre_map tv_down (movieGenreUrl tv_down) = Inr [(''action'', JNum ''28'')]"
    by (simp add: fetch_genre_map_def tv_down_def offline_def movieGenreUrl_def lower_Action set_own_def)
  have c: "fetch_genre_map tv_down (tvGenreUrl tv_down) = Inl RemoteError"
    by (simp add: fetch_genre_map_def tv_down_def offline_def tvGenreUrl_def)
  from a b c refresh_replaces_each_map_after_its_own_fetch [of offline cached]
    refresh_replaces_each_map_after_its_own_fetch [of tv_down cached]
  show ?thesis by simp
qed

section \<open>The stages never raise\<close>

lemma classify_cases:
  "\<exists>rt. classifyRequest w um = (Inr rt, [Chat (classifier_request um)])"
  by (simp add: classifyRequest_def Let_def split: sum.splits)

lemma generate_cases:
  "\<exists>q c. generateTMDBQuery w st um rt = (Inr q, c)"
  by (simp add: generateTMDBQuery_def Let_def split: sum.splits)

lemma refine_cases:
  "\<exists>a c. refineResultsWithAI w um items rt = (Inr a, c)"
  by (simp add: refineResultsWithAI_def Let_def split: sum.splits)

lemma normal_cases:
  "\<exists>a. generateNormalResponse w ms = (Inr a, [Chat (assistant_request ms)])"
  by (simp add: generateNormalResponse_def Let_def split: sum.splits)

lemma classify_calls: "snd (classifyRequest w um) = [Chat (classifier_request um)]"
  by (simp add: classifyRequest_def Let_def)

lemma generate_calls:
  "snd (generateTMDBQuery w st um rt) = [Chat (query_request w st um rt)] \<or>
   generateTMDBQuery w st um rt = (Inr (JObj []), [])"
  by (simp add: generateTMDBQuery_def Let_def)

lemma classify_labels:
  "fst (classifyRequest w um) \<in> {Inr ''movie'', Inr ''tv'', Inr ''none''}"
  by (simp add: classifyRequest_def Let_def split: sum.splits)

section \<open>The classifier\<close>

text \<open>
  Claim C6, as stated, fails: the answer is compared after \<^verbatim>\<open>trim()\<close> and
  \<^verbatim>\<open>toLowerCase()\<close>, so the answer \<^verbatim>\<open>Movie\<close>, a string other than the two labels, is
  classified as a film request.
\<close>

theorem classify_normalizes_counterexample:
  "chat_create capital_world (classifier_request (JStr ''hello'')) = Inr ''Movie'' \<and>
   ''Movie'' \<noteq> ''movie'' \<and> ''Movie'' \<noteq> ''tv'' \<and>
   classifyRequest capital_world (JStr ''hello'') =
     (Inr ''movie'', [Chat (classifier_request (JStr ''hello''))])"
  by code_simp

text \<open>
  Claim C6, amended: when the classifier's model call fails, or its answer, trimmed and
  in lower case, is neither \<^verbatim>\<open>movie\<close> nor \<^verbatim>\<open>tv\<close>, \<^verbatim>\<open>classifyRequest\<close> returns the third
  label (\<^verbatim>\<open>"none"\<close> in the code, \<^verbatim>\<open>other\<close> in the specification) after its one call, and
  raises nothing.
\<close>

theorem classify_fail_safe:
  assumes "(\<exists>e. chat_create w (classifier_request userMessage) = Inl e) \<or>
           (\<exists>content. chat_create w (classifier_request userMessage) = Inr content \<and>
                toLowerCase (trim content) \<noteq> ''movie'' \<and> toLowerCase (trim content) \<noteq> ''tv'')"
  shows "classifyRequest w userMessage = (Inr ''none'', [Chat (classifier_request userMessage)])"
  using assms by (auto simp: classifyRequest_def Let_def)

theorem classify_fail_safe_witness:
  "classifyRequest offline (JStr ''hello'') =
     (Inr ''none'', [Chat (classifier_request (JStr ''hello''))]) \<and>
   chat_create counting_world (classifier_request (JStr ''hello'')) = Inr ''xx'' \<and>
   classifyRequest counting_world (JStr ''hello'') =
     (Inr ''none'', [Chat (classifier_request (JStr ''hello''))])"
proof -
  have a: "chat_create offline (classifier_request (JStr ''hello'')) = Inl RemoteError"
    by (simp add: offline_def)
  have b: "chat_create counting_world (classifier_request (JStr ''hello'')) = Inr ''xx''"
    by (simp add: counting_world_def offline_def classifier_request_def)
  have c: "toLowerCase (trim ''xx'') = ''xx''"
    by code_simp
  from a b c classify_fail_safe [of offline "JStr ''hello''"]
    classify_fail_safe [of counting_world "JStr ''hello''"]
  show ?thesis by simp
qed

section \<open>Sanitizing the model's answer\<close>

lemma strip_no_slash: "CHR ''/'' \<notin> set l \<Longrightarrow> strip_comments (l @ r) = l @ strip_comments r"
proof (induction l)
  case Nil
  then show ?case by simp
next
  case (Cons c l)
  then show ?case by (cases "l @ r") auto
qed

lemma strip_no_slash': "CHR ''/'' \<notin> set l \<Longrightarrow> strip_comments l = l"
  using strip_no_slash[of l "[]"] by simp

lemma slash_not_space: "\<not> is_space (CHR ''/'')"
  by (simp add: is_space_def)

lemma tick_not_space: "\<not> is_space (CHR 0x60)"
  by (simp add: is_space_def)

lemma space_no_slash: "list_all is_space ws \<Longrightarrow> CHR ''/'' \<notin> set ws"
  using slash_not_space by (auto simp: list_all_iff)

lemma space_no_tick: "list_all is_space ws \<Longrightarrow> CHR 0x60 \<notin> set ws"
  using tick_not_space by (auto simp: list_all_iff)

lemma strip_comment_tail:
  assumes "list_all (\<lambda>x. \<not> is_line_terminator x) c" and "r = [] \<or> is_line_terminator (hd r)"
  shows "strip_comments (''//'' @ c @ r) = strip_comments r"
proof -
  have "dropWhile (\<lambda>x. \<not> is_line_terminator x) (c @ r) = dropWhile (\<lambda>x. \<not> is_line_terminator x) r"
    using assms(1) by (simp add: dropWhile_append2 list_all_iff)
  also have "\<dots> = r"
    using assms(2) by (cases r) auto
  finally show ?thesis by simp
qed

lemma strip_append_space:
  "list_all is_space ws \<Longrightarrow> \<exists>ws'. list_all is_space ws' \<and> strip_comments (s @ ws) = strip_comments s @ ws'"
proof (induction s rule: strip_comments.induct)
  case 1
  then show ?case using strip_no_slash'[OF space_no_slash] by auto
next
  case (2 c)
  have "strip_comments ([c] @ ws) = [c] @ ws"
  proof (cases ws)
    case Nil
    then show ?thesis by simp
  next
    case (Cons d ds)
    with 2 have "d \<noteq> CHR ''/''" "CHR ''/'' \<notin> set ds"
      using space_no_slash[OF 2] by auto
    then show ?thesis using Cons strip_no_slash'[of "d # ds"] by simp
  qed
  with 2 show ?case by auto
next
  case (3 c d cs)
  show ?case
  proof (cases "c = CHR ''/'' \<and> d = CHR ''/''")
    case True
    let ?P = "\<lambda>x. \<not> is_line_terminator x"
    show ?thesis
    proof (cases "\<exists>x \<in> set cs. is_line_terminator x")
      case True
      then have "dropWhile ?P (cs @ ws) = dropWhile ?P cs @ ws"
        by (auto simp: dropWhile_append1)
      with 3(1)[OF \<open>c = CHR ''/'' \<and> d = CHR ''/''\<close> 3(3)] \<open>c = CHR ''/'' \<and> d = CHR ''/''\<close>
      show ?thesis by simp
    next
      case False
      then have nolt: "\<forall>x \<in> set cs. ?P x" by simp
      have a: "dropWhile ?P (cs @ ws) = dropWhile ?P ws"
        using nolt by (simp add: dropWhile_append2)
      have b: "dropWhile ?P cs = []"
        using nolt by simp
      have sp: "list_all is_space (dropWhile ?P ws)"
        using 3(3) set_dropWhileD[of _ ?P ws] by (auto simp: list_all_iff)
      have c: "strip_comments (dropWhile ?P ws) = dropWhile ?P ws"
        using strip_no_slash'[OF space_no_slash[OF sp]] .
      have l: "strip_comments ((c # d # cs) @ ws) = dropWhile ?P ws"
        using \<open>c = CHR ''/'' \<and> d = CHR ''/''\<close> by (simp add: a c)
      have r: "strip_comments (c # d # cs) = []"
        using \<open>c = CHR ''/'' \<and> d = CHR ''/''\<close> by (simp add: b)
      show ?thesis
        unfolding l r using sp by (intro exI[of _ "dropWhile ?P ws"]) simp
    qed
  next
    case False
    with 3(2)[OF False 3(3)] show ?thesis by auto
  qed
qed

lemma trim_drop_left: "list_all is_space a \<Longrightarrow> trim (a @ y) = trim y"
  by (simp add: trim_def dropWhile_append2 list_all_iff)

lemma dropWhile_all: "list_all P xs \<Longrightarrow> dropWhile P xs = []"
  by (simp add: list_all_iff)

lemma trim_drop_right: "list_all is_space b \<Longrightarrow> trim (y @ b) = trim y"
proof (cases "list_all is_space y")
  case True
  assume "list_all is_space b"
  with True have "list_all is_space (y @ b)" by simp
  then have "dropWhile is_space (y @ b) = []" by (rule dropWhile_all)
  moreover have "dropWhile is_space y = []" using True by (rule dropWhile_all)
  ultimately show ?thesis by (simp only: trim_def)
next
  case False
  assume b: "list_all is_space b"
  from False obtain x where "x \<in> set y" "\<not> is_space x" by (auto simp: list_all_iff)
  then have d: "dropWhile is_space (y @ b) = dropWhile is_space y @ b"
    by (simp add: dropWhile_append1)
  have "\<And>x. x \<in> set (rev b) \<Longrightarrow> is_space x"
    using b by (simp add: list_all_iff)
  then have "dropWhile is_space (rev b @ rev (dropWhile is_space y)) =
      dropWhile is_space (rev (dropWhile is_space y))"
    by (rule dropWhile_append2)
  then show ?thesis by (simp add: trim_def d)
qed

lemma trim_decompose:
  "\<exists>a b. list_all is_space a \<and> list_all is_space b \<and> x = a @ trim x @ b"
proof -
  let ?y = "dropWhile is_space x"
  let ?z = "rev ?y"
  have 1: "x = takeWhile is_space x @ ?y" by simp
  have "rev (takeWhile is_space ?z @ dropWhile is_space ?z) = rev ?z"
    by (simp only: takeWhile_dropWhile_id)
  then have 2: "rev (dropWhile is_space ?z) @ rev (takeWhile is_space ?z) = ?y"
    by (simp only: rev_append rev_rev_ident)
  have 3: "trim x = rev (dropWhile is_space ?z)" by (simp only: trim_def)
  have "takeWhile is_space x @ trim x @ rev (takeWhile is_space ?z) = x"
    unfolding 3 2 by simp
  then have "x = takeWhile is_space x @ trim x @ rev (takeWhile is_space ?z)" by (rule sym)
  moreover have "list_all is_space (takeWhile is_space x)"
    by (auto simp: list_all_iff dest: set_takeWhileD)
  moreover have "list_all is_space (rev (takeWhile is_space ?z))"
    by (auto simp: list_all_iff dest: set_takeWhileD)
  ultimately show ?thesis by blast
qed

lemma trim_strip_trim: "trim (strip_comments (trim x)) = trim (strip_comments x)"
proof -
  obtain a b where a: "list_all is_space a" and b: "list_all is_space b" and x: "x = a @ trim x @ b"
    using trim_decompose by blast
  obtain b' where b': "list_all is_space b'"
    and s: "strip_comments (trim x @ b) = strip_comments (trim x) @ b'"
    using strip_append_space[OF b] by blast
  have "strip_comments (a @ trim x @ b) = a @ strip_comments (trim x) @ b'"
    using strip_no_slash[OF space_no_slash[OF a], of "trim x @ b"] s by simp
  then have "trim (strip_comments (a @ trim x @ b)) = trim (strip_comments (trim x))"
    using trim_drop_left[OF a] trim_drop_right[OF b'] by simp
  moreover have "trim (strip_comments x) = trim (strip_comments (a @ trim x @ b))"
    by (rule arg_cong[where f = "\<lambda>v. trim (strip_comments v)", OF x])
  ultimately show ?thesis by simp
qed



lemma open_fence_at_start: "remove_open_fence (''```json'' @ r) = dropWhile is_space r"
  by simp

lemma no_tick_fences:
  "CHR 0x60 \<notin> set u \<Longrightarrow> remove_open_fence u = u \<and> remove_close_fence u = u"
  by (induction u) auto

lemma close_fence_at_end:
  "CHR 0x60 \<notin> set u \<Longrightarrow> list_all is_space ws \<Longrightarrow> remove_close_fence (u @ ''```'' @ ws) = u"
  by (induction u) auto



lemma strip_no_comment:
  "\<not> has_line_comment l \<Longrightarrow> l = [] \<or> last l \<noteq> CHR ''/'' \<or> r = [] \<or> hd r \<noteq> CHR ''/'' \<Longrightarrow>
   strip_comments (l @ r) = l @ strip_comments r"
proof (induction l rule: induct_list012)
  case 1
  then show ?case by simp
next
  case (2 c)
  then show ?case by (cases r) auto
next
  case (3 c d cs)
  from 3(3) have n: "\<not> (c = CHR ''/'' \<and> d = CHR ''/'')" and h: "\<not> has_line_comment (d # cs)"
    by auto
  from 3(4) have "d # cs = [] \<or> last (d # cs) \<noteq> CHR ''/'' \<or> r = [] \<or> hd r \<noteq> CHR ''/''"
    by auto
  from 3(2)[OF h this] n show ?case by auto
qed

lemma line_terminator_no_slash: "is_line_terminator x \<Longrightarrow> x \<noteq> CHR ''/''"
  by (auto simp: is_line_terminator_def)

lemma strip_annotate_line:
  assumes "plain_line (l, c)" and "r = [] \<or> is_line_terminator (hd r)"
  shows "strip_comments (annotate_line l c @ r) = l @ strip_comments r"
proof (cases c)
  case None
  with assms(1) have "\<not> has_line_comment l"
    by (simp add: plain_line_def plain_text_def)
  moreover from assms(2) have "r = [] \<or> hd r \<noteq> CHR ''/''"
    using line_terminator_no_slash by blast
  ultimately have "strip_comments (l @ r) = l @ strip_comments r"
    by (intro strip_no_comment) auto
  with None show ?thesis by simp
next
  case (Some t)
  with assms(1) have n: "\<not> has_line_comment l" and e: "l = [] \<or> last l \<noteq> CHR ''/''"
    and t: "list_all (\<lambda>x. \<not> is_line_terminator x) t"
    by (auto simp: plain_line_def plain_text_def plain_comment_def list_all_iff)
  from e have "l = [] \<or> last l \<noteq> CHR ''/'' \<or> ''//'' @ t @ r = [] \<or> hd (''//'' @ t @ r) \<noteq> CHR ''/''"
    by blast
  from strip_no_comment[OF n this] strip_comment_tail[OF t assms(2)] Some
  show ?thesis by simp
qed

lemma strip_newline: "strip_comments (CHR 0x0A # r) = CHR 0x0A # strip_comments r"
  using strip_no_slash[of "[CHR 0x0A]" r] by simp

lemma strip_annotated:
  "list_all plain_line lcs \<Longrightarrow> strip_comments (annotated lcs) = join_lines (map fst lcs)"
proof (induction lcs rule: induct_list012)
  case 1
  then show ?case by (simp add: annotated_def join_lines_def)
next
  case (2 x)
  obtain l c where x: "x = (l, c)" by (cases x)
  with 2 have "plain_line (l, c)" by simp
  from strip_annotate_line[OF this, of "[]"] show ?case
    by (simp add: annotated_def join_lines_def x)
next
  case (3 x y zs)
  obtain l c where x: "x = (l, c)" by (cases x)
  with 3(3) have p: "plain_line (l, c)" by simp
  have ih: "strip_comments (annotated (y # zs)) = join_lines (map fst (y # zs))"
    using 3(2) 3(3) by simp
  have a: "annotated ((l, c) # y # zs) = annotate_line l c @ (CHR 0x0A # annotated (y # zs))"
    by (simp add: annotated_def join_lines_def)
  have "strip_comments (annotate_line l c @ (CHR 0x0A # annotated (y # zs))) =
        l @ strip_comments (CHR 0x0A # annotated (y # zs))"
    by (rule strip_annotate_line[OF p]) (simp add: is_line_terminator_def)
  then show ?case
    unfolding x by (simp add: a strip_newline ih join_lines_def)
qed

lemma strip_bare:
  "list_all (\<lambda>l. \<not> has_line_comment l) ls \<Longrightarrow> strip_comments (join_lines ls) = join_lines ls"
proof (induction ls rule: induct_list012)
  case 1
  then show ?case by (simp add: join_lines_def)
next
  case (2 x)
  then show ?case using strip_no_comment[of x "[]"] by (simp add: join_lines_def)
next
  case (3 x y zs)
  have ih: "strip_comments (join_lines (y # zs)) = join_lines (y # zs)"
    using 3(2) 3(3) by simp
  have "strip_comments (x @ (CHR 0x0A # join_lines (y # zs))) =
        x @ strip_comments (CHR 0x0A # join_lines (y # zs))"
    using 3(3) by (intro strip_no_comment) auto
  then show ?case
    using ih by (simp add: strip_newline join_lines_def)
qed

lemma plain_line_parts:
  "plain_line (l, c) \<Longrightarrow> plain_text l \<and> plain_comment c"
  by (cases c) (auto simp: plain_line_def plain_comment_def)

lemma join_lines_set:
  "set (join_lines ls) \<subseteq> insert (CHR 0x0A) (\<Union> (set ` set ls))"
  unfolding join_lines_def
  by (induction ls rule: induct_list012) auto

lemma annotate_line_no_tick:
  "plain_text l \<Longrightarrow> plain_comment c \<Longrightarrow> CHR 0x60 \<notin> set (annotate_line l c)"
  by (cases c) (auto simp: plain_text_def plain_comment_def list_all_iff)

lemma annotated_no_tick:
  assumes "list_all plain_line lcs"
  shows "CHR 0x60 \<notin> set (annotated lcs)"
proof
  assume "CHR 0x60 \<in> set (annotated lcs)"
  then have "CHR 0x60 \<in> insert (CHR 0x0A) (\<Union> (set ` set (map (\<lambda>(l, c). annotate_line l c) lcs)))"
    using join_lines_set unfolding annotated_def by blast
  then obtain l c where lc: "(l, c) \<in> set lcs" and t: "CHR 0x60 \<in> set (annotate_line l c)"
    by auto
  from assms lc have "plain_line (l, c)" by (auto simp: list_all_iff)
  from plain_line_parts[OF this] annotate_line_no_tick[of l c] t show False by blast
qed

lemma bare_no_tick:
  assumes "list_all plain_line lcs"
  shows "CHR 0x60 \<notin> set (join_lines (map fst lcs))"
proof
  assume "CHR 0x60 \<in> set (join_lines (map fst lcs))"
  then have "CHR 0x60 \<in> insert (CHR 0x0A) (\<Union> (set ` set (map fst lcs)))"
    using join_lines_set by blast
  then have "CHR 0x60 \<in> \<Union> (set ` set (map fst lcs))"
    by auto
  then obtain l c where lc: "(l, c) \<in> set lcs" and xl: "CHR 0x60 \<in> set l"
    by auto
  from assms lc have "plain_line (l, c)" by (auto simp: list_all_iff)
  from plain_line_parts[OF this] have "plain_text l" by blast
  with xl show False
    unfolding plain_text_def list_all_iff by blast
qed

lemma bare_no_comment:
  assumes "list_all plain_line lcs"
  shows "list_all (\<lambda>l. \<not> has_line_comment l) (map fst lcs)"
proof -
  have "\<not> has_line_comment l" if "(l, c) \<in> set lcs" for l c
  proof -
    from assms that have "plain_line (l, c)" by (auto simp: list_all_iff)
    from plain_line_parts[OF this] show ?thesis by (simp add: plain_text_def)
  qed
  then show ?thesis by (auto simp: list_all_iff)
qed

lemma dropWhile_append_stop:
  "b \<noteq> [] \<Longrightarrow> \<not> P (hd b) \<Longrightarrow> dropWhile P (a @ b) = dropWhile P a @ b"
  by (induction a) (auto simp: neq_Nil_conv)

lemma trim_dropWhile: "trim (dropWhile is_space z) = trim z"
  by (simp add: trim_def)

lemma trim_idem: "trim (trim x) = trim x"
proof -
  obtain a b where a: "list_all is_space a" and b: "list_all is_space b" and x: "x = a @ trim x @ b"
    using trim_decompose by blast
  have "trim (a @ trim x @ b) = trim (trim x)"
    using trim_drop_left[OF a, of "trim x @ b"] trim_drop_right[OF b, of "trim x"] by simp
  moreover have "trim x = trim (a @ trim x @ b)"
    by (rule arg_cong[where f = trim, OF x])
  ultimately show ?thesis by simp
qed

lemma sanitize_plain:
  assumes "CHR 0x60 \<notin> set b" and "strip_comments b = b"
  shows "sanitizeAIResponse b = trim b"
proof -
  have "trim (strip_comments (trim b)) = trim b"
    using trim_strip_trim[of b] assms(2) by simp
  then show ?thesis
    using no_tick_fences[OF assms(1)] by (simp add: sanitizeAIResponse_def Let_def)
qed

text \<open>What the sanitization does strip: a fence opened by \<^verbatim>\<open>```json\<close> and closed by \<^verbatim>\<open>```\<close>
  at the end of the text, and on every line the text from \<^verbatim>\<open>//\<close> to the end of the line.
  A text whose own lines hold no backquote and no two slashes in a row, annotated with
  line comments (after lines that do not end with a slash) and wrapped in such a fence, or
  annotated only, is sanitized to the same text as the bare lines are, namely the bare
  lines trimmed, and parses to the same value.\<close>

lemma sanitize_fenced_annotated:
  assumes "list_all is_space ws1" and "list_all is_space ws2" and "list_all is_space ws3"
      and "list_all plain_line lcs"
  shows "sanitizeAIResponse (fenced ws1 (annotated lcs) ws2 ws3) = trim (join_lines (map fst lcs)) \<and>
         sanitizeAIResponse (annotated lcs) = trim (join_lines (map fst lcs)) \<and>
         sanitizeAIResponse (join_lines (map fst lcs)) = trim (join_lines (map fst lcs)) \<and>
         JSON_parse w (sanitizeAIResponse (fenced ws1 (annotated lcs) ws2 ws3)) =
           JSON_parse w (sanitizeAIResponse (join_lines (map fst lcs)))"
proof -
  let ?X = "annotated lcs"
  let ?B = "join_lines (map fst lcs)"
  have xt: "CHR 0x60 \<notin> set ?X" by (rule annotated_no_tick[OF assms(4)])
  have sx: "strip_comments ?X = ?B" by (rule strip_annotated[OF assms(4)])
  have core: "trim (strip_comments (trim ?X)) = trim ?B"
    using trim_strip_trim[of ?X] sx by simp
  \<comment> \<open>the fenced text\<close>
  let ?Y = "dropWhile is_space (?X @ ws2)"
  have "remove_open_fence (fenced ws1 ?X ws2 ws3) = dropWhile is_space (ws1 @ ?X @ ws2 @ ''```'' @ ws3)"
    unfolding fenced_def by (rule open_fence_at_start)
  also have "\<dots> = dropWhile is_space ((?X @ ws2) @ ''```'' @ ws3)"
    using assms(1) by (simp add: dropWhile_append2 list_all_iff)
  also have "\<dots> = ?Y @ ''```'' @ ws3"
    by (rule dropWhile_append_stop) (simp_all add: tick_not_space)
  finally have o: "remove_open_fence (fenced ws1 ?X ws2 ws3) = ?Y @ ''```'' @ ws3" .
  have "CHR 0x60 \<notin> set (?X @ ws2)"
    using xt space_no_tick[OF assms(2)] by simp
  then have yt: "CHR 0x60 \<notin> set ?Y"
    using set_dropWhileD[of "CHR 0x60" is_space "?X @ ws2"] by blast
  have c: "remove_close_fence (?Y @ ''```'' @ ws3) = ?Y"
    by (rule close_fence_at_end[OF yt assms(3)])
  have t: "trim ?Y = trim ?X"
    using trim_dropWhile[of "?X @ ws2"] trim_drop_right[OF assms(2), of ?X] by simp
  have 1: "sanitizeAIResponse (fenced ws1 ?X ws2 ws3) = trim ?B"
    by (simp only: sanitizeAIResponse_def Let_def o c t core)
  \<comment> \<open>the text with its comments, no fence\<close>
  have 2: "sanitizeAIResponse ?X = trim ?B"
    using no_tick_fences[OF xt] core by (simp add: sanitizeAIResponse_def Let_def)
  \<comment> \<open>the bare text\<close>
  have 3: "sanitizeAIResponse ?B = trim ?B"
    using bare_no_tick[OF assms(4)] strip_bare[OF bare_no_comment[OF assms(4)]]
    by (rule sanitize_plain)
  from 1 2 3 show ?thesis by simp
qed

lemma sanitize_fenced_annotated_example:
  "sanitizeAIResponse
     (''```json'' @ [CHR 0x0A] @ ''{ Face/Off // the title'' @ [CHR 0x0A] @ ''}'' @ [CHR 0x0A] @ ''```'') =
   ''{ Face/Off '' @ [CHR 0x0A] @ ''}'' \<and>
   sanitizeAIResponse (''{ Face/Off '' @ [CHR 0x0A] @ ''}'') = ''{ Face/Off '' @ [CHR 0x0A] @ ''}''"
  using sanitize_fenced_annotated
    [of "[CHR 0x0A]" "[CHR 0x0A]" "[]" "[(''{ Face/Off '', Some '' the title''), (''}'', None)]" offline]
  by (simp add: fenced_def annotated_def join_lines_def plain_line_def plain_text_def plain_comment_def
      is_space_def is_line_terminator_def trim_def)

text \<open>
  Claim C8 does not hold of the code. Only a fence that opens with \<^verbatim>\<open>```json\<close> is stripped.
  Of a fence that does not name its language, the closing \<^verbatim>\<open>```\<close> goes and the opening one
  stays, so the sanitized text is not the object's text and is not JSON: the synthesizer
  returns the empty query where the bare object, and the object in a \<^verbatim>\<open>```json\<close> fence, give
  the query for the year.
\<close>

theorem untagged_fence_loses_query:
  "sanitizeAIResponse (trim year_text) = year_text \<and>
   sanitizeAIResponse (trim tagged_fence) = year_text \<and>
   sanitizeAIResponse (trim untagged_fence) = ''```'' @ [CHR 0x0A] @ year_text \<and>
   fst (generateTMDBQuery (answering year_text) cached (JStr ''films of 1999'') ''movie'') =
     Inr year_query \<and>
   fst (generateTMDBQuery (answering tagged_fence) cached (JStr ''films of 1999'') ''movie'') =
     Inr year_query \<and>
   fst (generateTMDBQuery (answering untagged_fence) cached (JStr ''films of 1999'') ''movie'') =
     Inr (JObj [])"
  by code_simp

section \<open>The query synthesizer\<close>

lemma build_url_empty_query:
  "build_url w endpoint (JStr ''en-US'') (JObj []) =
     Inr (''https://api.themoviedb.org/3/'' @ endpoint @ ''?api_key='' @ TMDB_API_KEY w @ ''&language=en-US'')"
  by (simp add: build_url_def)

lemma fetch_empty_query:
  "fetchFromTMDB w (JObj []) requestType =
     (Inr (case axios_get w (''https://api.themoviedb.org/3/'' @
                             (if requestType = ''movie'' then ''discover/movie'' else ''discover/tv'') @
                             ''?api_key='' @ TMDB_API_KEY w @ ''&language=en-US'') of
             Inl e \<Rightarrow> [] | Inr results \<Rightarrow> map (stamp requestType) results,
           JObj []),
      [Get (''https://api.themoviedb.org/3/'' @
            (if requestType = ''movie'' then ''discover/movie'' else ''discover/tv'') @
            ''?api_key='' @ TMDB_API_KEY w @ ''&language=en-US'')])"
  by (simp add: fetchFromTMDB_def prepare_request_def languageParam_of_def resolve_cast_names_def
      resolve_keyword_names_def build_url_empty_query Let_def split: sum.splits)

text \<open>When the synthesis model call fails, or \<^verbatim>\<open>JSON.parse\<close> throws on the model's answer as
  trimmed and sanitized, \<^verbatim>\<open>generateTMDBQuery\<close> returns the empty object and raises nothing;
  and the empty object raises nothing downstream: \<^verbatim>\<open>fetchFromTMDB\<close> runs it as one
  unfiltered request in the default language and returns a list.\<close>

lemma synthesize_degrades_to_empty_query:
  assumes "(\<exists>e. chat_create w (query_request w st userMessage requestType) = Inl e) \<or>
           (\<exists>content e. chat_create w (query_request w st userMessage requestType) = Inr content \<and>
                JSON_parse w (sanitizeAIResponse (trim content)) = Inl e)"
  shows "fst (generateTMDBQuery w st userMessage requestType) = Inr (JObj []) \<and>
         (\<exists>items. fetchFromTMDB w (JObj []) requestType =
            (Inr (items, JObj []),
             [Get (''https://api.themoviedb.org/3/'' @
                   (if requestType = ''movie'' then ''discover/movie'' else ''discover/tv'') @
                   ''?api_key='' @ TMDB_API_KEY w @ ''&language=en-US'')]))"
proof -
  have "fst (generateTMDBQuery w st userMessage requestType) = Inr (JObj [])"
    using assms by (auto simp: generateTMDBQuery_def Let_def)
  then show ?thesis
    by (simp add: fetch_empty_query)
qed

lemma synthesize_degrades_example:
  "generateTMDBQuery offline cached (JStr ''a film'') ''movie'' =
     (Inr (JObj []), [Chat (query_request offline cached (JStr ''a film'') ''movie'')]) \<and>
   chat_create counting_world (query_request counting_world cached (JStr ''a film'') ''movie'') = Inr ''xx'' \<and>
   JSON_parse counting_world (sanitizeAIResponse (trim ''xx'')) = Inl SyntaxError \<and>
   generateTMDBQuery counting_world cached (JStr ''a film'') ''movie'' =
     (Inr (JObj []), [Chat (query_request counting_world cached (JStr ''a film'') ''movie'')]) \<and>
   fetchFromTMDB offline (JObj []) ''movie'' =
     (Inr ([], JObj []),
      [Get ''https://api.themoviedb.org/3/discover/movie?api_key=k&language=en-US''])"
  by code_simp

text \<open>
  Claim C5 does not hold of the code. A model answer that is JSON but not an object is
  returned as parsed: on the answer \<^verbatim>\<open>null\<close>, \<^verbatim>\<open>generateTMDBQuery\<close> returns \<^verbatim>\<open>null\<close>, not the
  empty object; downstream \<^verbatim>\<open>fetchFromTMDB\<close> throws on reading \<^verbatim>\<open>queryParams.language\<close>, before
  any request, and the endpoint answers 500.
\<close>

theorem synthesize_returns_null:
  "sanitizeAIResponse (trim ''null'') = ''null'' \<and>
   generateTMDBQuery null_world cached (JStr ''Recommend a movie'') ''movie'' =
     (Inr JNull, [Chat (query_request null_world cached (JStr ''Recommend a movie'') ''movie'')]) \<and>
   fetchFromTMDB null_world JNull ''movie'' = (Inl TypeError, []) \<and>
   respond null_world cached (Some [user_says ''Recommend a movie'']) =
     (Responded 500 (JObj [(''error'', JStr ''Failed to complete the response.'')]),
      [Chat (classifier_request (JStr ''Recommend a movie'')),
       Chat (query_request null_world cached (JStr ''Recommend a movie'') ''movie'')])"
  by code_simp

section \<open>The executor: the allow-list\<close>

text \<open>What the loop appends comes from a property of the query with a truthy value, under
  the name \<open>mappings_get\<close> gives for its key.\<close>

lemma recognized_params_origin:
  "recognized_params kvs = Inr ps \<Longrightarrow> (k, v) \<in> set ps \<Longrightarrow>
   \<exists>key val t. (key, val) \<in> set kvs \<and> truthy val \<and> mappings_get key = Some k \<and>
               to_string val = Inr t \<and> v = encodeURIComponent t"
proof (induction kvs arbitrary: ps rule: recognized_params.induct)
  case 1
  then show ?case by simp
next
  case (2 key val rest)
  show ?case
  proof (cases "mappings_get key")
    case None
    with 2 show ?thesis by fastforce
  next
    case (Some tmdbKey)
    show ?thesis
    proof (cases "truthy val")
      case False
      with 2 Some show ?thesis by fastforce
    next
      case True
      from 2(4) Some True obtain t ps' where
        t: "to_string val = Inr t" and r: "recognized_params rest = Inr ps'" and
        ps: "ps = (tmdbKey, encodeURIComponent t) # ps'"
        by (auto split: sum.splits)
      show ?thesis
      proof (cases "(k, v) = (tmdbKey, encodeURIComponent t)")
        case True
        with Some \<open>truthy val\<close> t show ?thesis by auto
      next
        case False
        with 2(5) ps have "(k, v) \<in> set ps'" by auto
        from 2(2)[OF Some \<open>truthy val\<close> t r this] show ?thesis by auto
      qed
    qed
  qed
qed

text \<open>As long as no key of the query is the name of a member of \<^verbatim>\<open>Object.prototype\<close>, the
  names the loop appends are right-hand sides of the table.\<close>

lemma recognized_params_allow_list:
  assumes "\<forall>key \<in> fst ` set kvs. key \<notin> fst ` set Object_prototype"
      and "recognized_params kvs = Inr ps" and "(k, v) \<in> set ps"
  shows "k \<in> snd ` set mappings"
proof -
  from recognized_params_origin[OF assms(2,3)] obtain key val
    where kv: "(key, val) \<in> set kvs" and m: "mappings_get key = Some k" by blast
  from kv assms(1) have "key \<notin> fst ` set Object_prototype" by force
  then have "map_of Object_prototype key = None"
    by (simp add: map_of_eq_None_iff)
  with m have "map_of mappings key = Some k"
    by (simp add: mappings_get_def split: option.splits)
  then have "(key, k) \<in> set mappings" by (rule map_of_SomeD)
  then show ?thesis by force
qed

text \<open>
  Claim C1 does not hold of the code. The language value is appended to the URL as it is,
  while every other value goes through \<^verbatim>\<open>encodeURIComponent\<close>: a language that holds
  \<^verbatim>\<open>&\<close> makes the request carry a parameter (\<^verbatim>\<open>include_adult\<close> here) that is not a
  product of the allow-list. And a query field named like a member of
  \<^verbatim>\<open>Object.prototype\<close> (\<^verbatim>\<open>constructor\<close> here) passes the test \<^verbatim>\<open>mappings[key]\<close>, so the
  field is not dropped: it is sent under the text the inherited member renders to.
\<close>

theorem url_carries_unlisted_parameters:
  "snd (fetchFromTMDB offline (JObj [(''language'', JStr ''en-US&include_adult=true'')]) ''movie'') =
     [Get ''https://api.themoviedb.org/3/discover/movie?api_key=k&language=en-US&include_adult=true''] \<and>
   url_param_names
     ''https://api.themoviedb.org/3/discover/movie?api_key=k&language=en-US&include_adult=true'' =
     [''api_key'', ''language'', ''include_adult''] \<and>
   ''include_adult'' \<notin> set allowed_names \<and>
   snd (fetchFromTMDB offline (JObj [(''constructor'', JStr ''x'')]) ''movie'') =
     [Get ''https://api.themoviedb.org/3/discover/movie?api_key=k&language=en-US&function Object() { [native code] }=x''] \<and>
   ''function Object() { [native code] }'' \<notin> set allowed_names"
  by code_simp

section \<open>The executor: keyword names\<close>

text \<open>Every id of the filter the query came with is still in the merged list.\<close>

lemma new_Set_fold_keeps:
  "JStr e \<in> set xs \<union> set acc \<Longrightarrow>
   JStr e \<in> set (foldl (\<lambda>acc x. if list_ex (same_value_zero x) acc then acc else acc @ [x]) acc xs)"
proof (induction xs arbitrary: acc)
  case Nil
  then show ?case by simp
next
  case (Cons x xs)
  let ?acc = "if list_ex (same_value_zero x) acc then acc else acc @ [x]"
  have "JStr e \<in> set xs \<union> set ?acc"
  proof (cases "JStr e = x")
    case True
    then show ?thesis by (auto simp: list_ex_iff)
  next
    case False
    with Cons.prems show ?thesis by auto
  qed
  from Cons.IH[OF this] show ?case by simp
qed

lemma keyword_merge_keeps_existing:
  "e \<in> set existing \<Longrightarrow> JStr e \<in> set (new_Set (map JStr existing @ keywordIds))"
  unfolding new_Set_def by (rule new_Set_fold_keeps) auto

text \<open>
  Claim C3 does not hold of the code. The ids of the filter the query came with are
  strings (pieces of a split string), the ids the catalog resolves are numbers, and a
  \<^verbatim>\<open>Set\<close> never identifies a string with a number: when a keyword name resolves to an id the
  filter already holds, the merged list holds that id twice.
\<close>

theorem keyword_merge_repeats_id:
  "resolve_keyword_names keyword_world keyword_query =
     (Inr (JObj [(''with_keywords'', JStr ''9715|9715'')]),
      [Get ''https://api.themoviedb.org/3/search/keyword?api_key=k&query=superhero&page=1''])"
  by code_simp

section \<open>The executor: what a request is made of\<close>

lemma get_prop_put:
  "get_prop q k = Inr v0 \<Longrightarrow> truthy v0 \<Longrightarrow>
   get_prop (put_prop q k' v) k1 = (if k1 = k' then Inr v else get_prop q k1)"
  by (cases q) (auto simp: update_conv')

lemma get_prop_delete:
  "get_prop q k = Inr v0 \<Longrightarrow>
   get_prop (delete_prop q k') k1 = (if k1 = k' then Inr JUndefined else get_prop q k1)"
  by (cases q) (auto simp: delete_conv')

lemma fetchActorIds_per_name:
  "fst (fetchActorIdsByNames w names lang) =
     concat (map (\<lambda>n. case personUrl w n lang of Inl e \<Rightarrow> [] | Inr u \<Rightarrow> first_id (axios_get w u))
               names)"
  by (induction names) (auto simp: Let_def split: prod.splits sum.splits)

lemma resolve_cast_names_string:
  assumes "get_prop q ''with_cast_names'' = Inr (JStr s)" and "s \<noteq> []"
      and "resolve_cast_names w q lang = (Inr q1, calls)"
  shows "if fst (fetchActorIdsByNames w (map trim (split_on (CHR '','') s)) lang) \<noteq> []
         then \<exists>joined.
                js_join '','' (fst (fetchActorIdsByNames w (map trim (split_on (CHR '','') s)) lang)) =
                  Inr joined \<and>
                q1 = delete_prop (put_prop q ''with_cast'' (JStr joined)) ''with_cast_names''
         else q1 = delete_prop q ''with_cast_names''"
  using assms
  by (auto simp: resolve_cast_names_def Let_def split: prod.splits sum.splits if_splits)

lemma resolve_cast_names_falsy:
  "get_prop q ''with_cast_names'' = Inr v \<Longrightarrow> \<not> truthy v \<Longrightarrow>
   resolve_cast_names w q lang = (Inr q, [])"
  by (simp add: resolve_cast_names_def)

lemma resolve_cast_names_result:
  assumes "resolve_cast_names w q lang = (Inr q1, calls)"
  shows "(\<exists>v. get_prop q1 ''with_cast_names'' = Inr v \<and> \<not> truthy v) \<and>
         (\<forall>k. k \<noteq> ''with_cast'' \<and> k \<noteq> ''with_cast_names'' \<longrightarrow> get_prop q1 k = get_prop q k)"
proof (cases "get_prop q ''with_cast_names''")
  case (Inl e)
  with assms show ?thesis by (simp add: resolve_cast_names_def)
next
  case (Inr names)
  show ?thesis
  proof (cases "truthy names")
    case False
    with assms Inr show ?thesis by (auto simp: resolve_cast_names_def)
  next
    case True
    with assms Inr obtain s where s: "names = JStr s"
      by (cases names) (auto simp: resolve_cast_names_def)
    with True have ne: "s \<noteq> []" by simp
    let ?ids = "fst (fetchActorIdsByNames w (map trim (split_on (CHR '','') s)) lang)"
    have p: "\<And>k v. get_prop (put_prop q ''with_cast'' v) k = (if k = ''with_cast'' then Inr v else get_prop q k)"
      using get_prop_put[OF Inr True] by simp
    note r = resolve_cast_names_string[OF Inr[unfolded s] ne assms]
    show ?thesis
    proof (cases "?ids \<noteq> []")
      case True
      with r obtain joined where
        q1: "q1 = delete_prop (put_prop q ''with_cast'' (JStr joined)) ''with_cast_names''"
        by auto
      have "get_prop (put_prop q ''with_cast'' (JStr joined)) ''with_cast_names'' = Inr names"
        using p Inr by simp
      from get_prop_delete[OF this] q1 p show ?thesis by auto
    next
      case False
      with r have "q1 = delete_prop q ''with_cast_names''" by simp
      with get_prop_delete[OF Inr] show ?thesis by auto
    qed
  qed
qed

lemma resolve_keyword_names_result:
  assumes "resolve_keyword_names w q = (Inr q2, calls)"
  shows "(\<exists>v. get_prop q2 ''with_keywords_names'' = Inr v \<and> \<not> truthy v) \<and>
         (\<forall>k. k \<noteq> ''with_keywords'' \<and> k \<noteq> ''with_keywords_names'' \<longrightarrow> get_prop q2 k = get_prop q k)"
proof (cases "get_prop q ''with_keywords_names''")
  case (Inl e)
  with assms show ?thesis by (simp add: resolve_keyword_names_def)
next
  case (Inr names)
  show ?thesis
  proof (cases "truthy names")
    case False
    with assms Inr show ?thesis by (auto simp: resolve_keyword_names_def)
  next
    case True
    with assms Inr obtain s where s: "names = JStr s"
      by (cases names) (auto simp: resolve_keyword_names_def)
    have p: "\<And>k v. get_prop (put_prop q ''with_keywords'' v) k =
                (if k = ''with_keywords'' then Inr v else get_prop q k)"
      using get_prop_put[OF Inr True] by simp
    have d: "get_prop (delete_prop (put_prop q ''with_keywords'' v) ''with_keywords_names'') k =
                (if k = ''with_keywords_names'' then Inr JUndefined
                 else if k = ''with_keywords'' then Inr v else get_prop q k)" for v k
    proof -
      have "get_prop (put_prop q ''with_keywords'' v) ''with_keywords_names'' = Inr names"
        using p Inr by simp
      from get_prop_delete[OF this] p show ?thesis by simp
    qed
    have "(\<exists>v. q2 = delete_prop (put_prop q ''with_keywords'' v) ''with_keywords_names'') \<or>
          q2 = delete_prop q ''with_keywords_names''"
      using assms Inr True s
      by (auto simp: resolve_keyword_names_def Let_def split: prod.splits sum.splits if_splits jsval.splits)
    then show ?thesis
    proof
      assume "\<exists>v. q2 = delete_prop (put_prop q ''with_keywords'' v) ''with_keywords_names''"
      then obtain v where "q2 = delete_prop (put_prop q ''with_keywords'' v) ''with_keywords_names''" ..
      with d show ?thesis by simp
    next
      assume "q2 = delete_prop q ''with_keywords_names''"
      with get_prop_delete[OF Inr] show ?thesis by simp
    qed
  qed
qed

lemma prepare_request_steps:
  assumes "prepare_request w q rt = (Inr (url, q2), calls)"
  obtains lang q1 c1 c2 where
    "languageParam_of (if q = JUndefined then JObj [] else q) = Inr lang"
    "resolve_cast_names w (if q = JUndefined then JObj [] else q) lang = (Inr q1, c1)"
    "resolve_keyword_names w q1 = (Inr q2, c2)"
    "build_url w (if rt = ''movie'' then ''discover/movie'' else ''discover/tv'') lang q2 = Inr url"
    "calls = c1 @ c2"
proof -
  let ?q = "if q = JUndefined then JObj [] else q"
  from assms obtain lang where lang: "languageParam_of ?q = Inr lang"
    by (cases "languageParam_of ?q") (auto simp: prepare_request_def Let_def)
  from assms lang obtain q1 c1 where r1: "resolve_cast_names w ?q lang = (Inr q1, c1)"
    by (cases "resolve_cast_names w ?q lang")
       (auto simp: prepare_request_def Let_def split: sum.splits)
  from assms lang r1 obtain q2' c2 where r2: "resolve_keyword_names w q1 = (Inr q2', c2)"
    by (cases "resolve_keyword_names w q1")
       (auto simp: prepare_request_def Let_def split: sum.splits)
  from assms lang r1 r2
  have "build_url w (if rt = ''movie'' then ''discover/movie'' else ''discover/tv'') lang q2' = Inr url"
    and "calls = c1 @ c2" and "q2' = q2"
    by (auto simp: prepare_request_def Let_def split: sum.splits)
  with lang r1 r2 that show thesis by blast
qed

text \<open>The names of the parameters of a URL built by \<open>build_url\<close>.\<close>

lemma split_on_no_sep: "c \<notin> set a \<Longrightarrow> split_on c a = [a]"
  by (induction a) (auto split: list.splits)

lemma split_on_append: "c \<notin> set a \<Longrightarrow> split_on c (a @ c # b) = a # split_on c b"
  by (induction a) (auto split: list.splits)

lemma split_on_pairs:
  assumes "\<forall>(k, v) \<in> set ps. CHR ''&'' \<notin> set k \<and> CHR ''&'' \<notin> set v" and "CHR ''&'' \<notin> set a"
  shows "split_on (CHR ''&'') (a @ concat (map (\<lambda>(k, v). ''&'' @ k @ ''='' @ v) ps)) =
           a # map (\<lambda>(k, v). k @ ''='' @ v) ps"
  using assms
proof (induction ps arbitrary: a)
  case Nil
  then show ?case by (simp add: split_on_no_sep)
next
  case (Cons p ps)
  obtain k v where p: "p = (k, v)" by (cases p)
  from Cons.prems p have kv: "CHR ''&'' \<notin> set (k @ ''='' @ v)" by auto
  from Cons.prems have rest: "\<forall>(k, v) \<in> set ps. CHR ''&'' \<notin> set k \<and> CHR ''&'' \<notin> set v" by auto
  have "split_on (CHR ''&'') (a @ CHR ''&'' # ((k @ ''='' @ v) @ concat (map (\<lambda>(k, v). ''&'' @ k @ ''='' @ v) ps))) =
        a # split_on (CHR ''&'') ((k @ ''='' @ v) @ concat (map (\<lambda>(k, v). ''&'' @ k @ ''='' @ v) ps))"
    using Cons.prems(2) by (rule split_on_append)
  also have "\<dots> = a # (k @ ''='' @ v) # map (\<lambda>(k, v). k @ ''='' @ v) ps"
    using Cons.IH[OF rest kv] by simp
  finally show ?case by (simp add: p)
qed

lemma name_of_pair: "CHR ''='' \<notin> set k \<Longrightarrow> takeWhile (\<lambda>c. c \<noteq> CHR ''='') (k @ CHR ''='' # v) = k"
  by (induction k) auto

lemma url_param_names_pairs:
  assumes "\<forall>(k, v) \<in> set ps. CHR ''&'' \<notin> set k \<and> CHR ''='' \<notin> set k \<and> CHR ''&'' \<notin> set v"
      and "CHR ''&'' \<notin> set key" and "CHR ''&'' \<notin> set l"
      and "endpoint = ''discover/movie'' \<or> endpoint = ''discover/tv''"
  shows "url_param_names
           (''https://api.themoviedb.org/3/'' @ endpoint @ ''?api_key='' @ key @ ''&language='' @ l @
            concat (map (\<lambda>(tmdbKey, v). ''&'' @ tmdbKey @ ''='' @ v) ps)) =
         ''api_key'' # ''language'' # map fst ps"
proof -
  let ?rest = "concat (map (\<lambda>(tmdbKey, v). ''&'' @ tmdbKey @ ''='' @ v) ps)"
  have q: "drop 1 (dropWhile (\<lambda>c. c \<noteq> CHR ''?'')
             (''https://api.themoviedb.org/3/'' @ endpoint @ ''?api_key='' @ key @ ''&language='' @ l @ ?rest)) =
           (''api_key='' @ key) @ CHR ''&'' # ((''language='' @ l) @ ?rest)"
    using assms(4) by auto
  have a: "CHR ''&'' \<notin> set (''api_key='' @ key)" using assms(2) by simp
  have b: "CHR ''&'' \<notin> set (''language='' @ l)" using assms(3) by simp
  have c: "\<forall>(k, v) \<in> set ps. CHR ''&'' \<notin> set k \<and> CHR ''&'' \<notin> set v" using assms(1) by auto
  have s: "split_on (CHR ''&'') ((''api_key='' @ key) @ CHR ''&'' # ((''language='' @ l) @ ?rest)) =
           (''api_key='' @ key) # (''language='' @ l) # map (\<lambda>(k, v). k @ ''='' @ v) ps"
    using split_on_append[OF a] split_on_pairs[OF c b] by simp
  have n: "map (takeWhile (\<lambda>c. c \<noteq> CHR ''='')) (map (\<lambda>(k, v). k @ ''='' @ v) ps) = map fst ps"
    using assms(1) by (induction ps) (auto simp: name_of_pair)
  have n1: "takeWhile (\<lambda>c. c \<noteq> CHR ''='') (''api_key='' @ key) = ''api_key''" by simp
  have n2: "takeWhile (\<lambda>c. c \<noteq> CHR ''='') (''language='' @ l) = ''language''" by simp
  show ?thesis
    unfolding url_param_names_def q s using n n1 n2 by simp
qed

lemma amp_reserved: "\<not> unreserved (CHR ''&'')"
  by code_simp

lemma hex_digit_no_amp: "CHR ''&'' \<noteq> hex_digit n"
proof -
  have "hex_digit n \<in> set ''0123456789ABCDEF''"
    unfolding hex_digit_def by (rule nth_mem) simp
  then show ?thesis by auto
qed

lemma percent_no_amp: "CHR ''&'' \<notin> set (percent n)"
  by (simp add: percent_def hex_digit_no_amp)

lemma encode_no_amp: "CHR ''&'' \<notin> set (encodeURIComponent t)"
proof -
  have "CHR ''&'' \<notin> set (encode_unit c)" for c
  proof (cases "unreserved c")
    case True
    with amp_reserved have "c \<noteq> CHR ''&''" by auto
    with True show ?thesis by (simp add: encode_unit_def Let_def)
  next
    case False
    then show ?thesis by (simp add: encode_unit_def Let_def percent_no_amp)
  qed
  then show ?thesis by (auto simp: encodeURIComponent_def)
qed

lemma mappings_get_range:
  "mappings_get key = Some k \<Longrightarrow>
   k \<noteq> ''with_cast_names'' \<and> k \<noteq> ''with_keywords_names'' \<and>
   CHR ''&'' \<notin> set k \<and> CHR ''='' \<notin> set k"
  by (auto simp: mappings_get_def mappings_def Object_prototype_def split: option.splits if_splits)

text \<open>As long as neither the credential nor the language holds an \<^verbatim>\<open>&\<close>, the parameters of
  a URL that is built are the credential, the language and what the loop appends.\<close>

lemma build_url_param_names:
  assumes "build_url w endpoint lang q = Inr url"
      and "endpoint = ''discover/movie'' \<or> endpoint = ''discover/tv''"
      and "to_string lang = Inr l" and "CHR ''&'' \<notin> set l" and "CHR ''&'' \<notin> set (TMDB_API_KEY w)"
  shows "\<exists>ps. recognized_params (own_entries q) = Inr ps \<and>
              url_param_names url = ''api_key'' # ''language'' # map fst ps"
proof -
  from assms(1,3) obtain ps where
    ps: "recognized_params (own_entries q) = Inr ps" and
    url: "url = ''https://api.themoviedb.org/3/'' @ endpoint @ ''?api_key='' @ TMDB_API_KEY w @
                ''&language='' @ l @ concat (map (\<lambda>(tmdbKey, v). ''&'' @ tmdbKey @ ''='' @ v) ps)"
    by (auto simp: build_url_def split: sum.splits)
  have "\<forall>(k, v) \<in> set ps. CHR ''&'' \<notin> set k \<and> CHR ''='' \<notin> set k \<and> CHR ''&'' \<notin> set v"
  proof (intro ballI, clarify)
    fix k v assume "(k, v) \<in> set ps"
    from recognized_params_origin[OF ps this] obtain key t where
      "mappings_get key = Some k" "v = encodeURIComponent t" by blast
    with mappings_get_range[of key k] encode_no_amp[of t]
    show "CHR ''&'' \<notin> set k \<and> CHR ''='' \<notin> set k \<and> CHR ''&'' \<notin> set v" by simp
  qed
  from url_param_names_pairs[OF this assms(5,4,2)] ps url show ?thesis by simp
qed

lemma build_url_no_name_fields:
  assumes "build_url w endpoint lang q = Inr url"
      and "endpoint = ''discover/movie'' \<or> endpoint = ''discover/tv''"
      and "to_string lang = Inr l" and "CHR ''&'' \<notin> set l" and "CHR ''&'' \<notin> set (TMDB_API_KEY w)"
  shows "''with_cast_names'' \<notin> set (url_param_names url) \<and>
         ''with_keywords_names'' \<notin> set (url_param_names url)"
proof -
  from build_url_param_names[OF assms] obtain ps where
    ps: "recognized_params (own_entries q) = Inr ps" and
    n: "url_param_names url = ''api_key'' # ''language'' # map fst ps" by blast
  have "k \<noteq> ''with_cast_names'' \<and> k \<noteq> ''with_keywords_names''" if "k \<in> fst ` set ps" for k
  proof -
    from that obtain v where "(k, v) \<in> set ps" by auto
    from recognized_params_origin[OF ps this] mappings_get_range show ?thesis by blast
  qed
  then show ?thesis unfolding n by auto
qed

text \<open>Whatever the query, the query a request leaves holds neither name-based field with a
  truthy value.\<close>

lemma name_fields_gone_before_request:
  assumes "prepare_request w q rt = (Inr (url, q2), calls)"
  shows "(\<exists>v. get_prop q2 ''with_cast_names'' = Inr v \<and> \<not> truthy v) \<and>
         (\<exists>v. get_prop q2 ''with_keywords_names'' = Inr v \<and> \<not> truthy v)"
proof -
  from assms obtain lang q1 c1 c2 where
    r1: "resolve_cast_names w (if q = JUndefined then JObj [] else q) lang = (Inr q1, c1)" and
    r2: "resolve_keyword_names w q1 = (Inr q2, c2)"
    by (rule prepare_request_steps)
  note a = resolve_cast_names_result[OF r1]
  note b = resolve_keyword_names_result[OF r2]
  have 1: "\<exists>v. get_prop q2 ''with_cast_names'' = Inr v \<and> \<not> truthy v"
    using a b by simp
  have 2: "\<exists>v. get_prop q2 ''with_keywords_names'' = Inr v \<and> \<not> truthy v"
    using b by simp
  from 1 2 show ?thesis by blast
qed

text \<open>
  Claim C4, as stated, fails. A cast-names field that holds the empty string is not
  removed: the block is guarded by the field's truth. And a query that comes with a cast
  filter keeps it when none of its names resolves, so the request carries a cast filter
  although no name resolved.
\<close>

theorem cast_names_left_counterexample:
  "prepare_request offline empty_cast_query ''movie'' =
     (Inr (''https://api.themoviedb.org/3/discover/movie?api_key=k&language=en-US'',
           JObj [(''with_cast_names'', JStr [])]), []) \<and>
   fst (fetchActorIdsByNames cast_world (map trim (split_on (CHR '','') ''Nobody'')) (JStr ''en-US'')) = [] \<and>
   prepare_request cast_world stale_cast_query ''movie'' =
     (Inr (''https://api.themoviedb.org/3/discover/movie?api_key=k&language=en-US&with_cast=500'',
           JObj [(''with_cast'', JStr ''500'')]),
      [Get ''https://api.themoviedb.org/3/search/person?api_key=k&query=Nobody&language=en-US&include_adult=false''])"
  by code_simp

text \<open>
  Claim C4, amended: take a query for which a request is issued. When its cast-names
  field holds a non-empty string, the names are that string split at commas and trimmed,
  each looked up on its own; the id-based cast filter is the resolved ids joined by commas
  when at least one name resolved and is left as the query had it otherwise; and the
  cast-names field is gone from the query afterwards in either case. When the field is
  absent or holds a falsy value, the field and the cast filter are left as they were. In
  every case, as long as neither the credential nor the language holds an \<^verbatim>\<open>&\<close>, no
  parameter of the URL that is requested has the name of a name-based field.
\<close>

theorem cast_names_resolved_and_removed:
  assumes "prepare_request w q rt = (Inr (url, q2), calls)" and "languageParam_of q = Inr lang"
  shows "build_url w (if rt = ''movie'' then ''discover/movie'' else ''discover/tv'') lang q2 = Inr url \<and>
         (\<forall>l. to_string lang = Inr l \<and> CHR ''&'' \<notin> set l \<and> CHR ''&'' \<notin> set (TMDB_API_KEY w) \<longrightarrow>
            ''with_cast_names'' \<notin> set (url_param_names url) \<and>
            ''with_keywords_names'' \<notin> set (url_param_names url)) \<and>
         (\<forall>s. get_prop q ''with_cast_names'' = Inr (JStr s) \<and> s \<noteq> [] \<longrightarrow>
            fst (fetchActorIdsByNames w (map trim (split_on (CHR '','') s)) lang) =
              concat (map (\<lambda>n. case personUrl w n lang of
                                 Inl e \<Rightarrow> []
                               | Inr u \<Rightarrow> first_id (axios_get w u))
                       (map trim (split_on (CHR '','') s))) \<and>
            (if fst (fetchActorIdsByNames w (map trim (split_on (CHR '','') s)) lang) \<noteq> []
             then \<exists>joined.
                    js_join '','' (fst (fetchActorIdsByNames w (map trim (split_on (CHR '','') s)) lang)) =
                      Inr joined \<and>
                    get_prop q2 ''with_cast'' = Inr (JStr joined)
             else get_prop q2 ''with_cast'' = get_prop q ''with_cast'') \<and>
            get_prop q2 ''with_cast_names'' = Inr JUndefined) \<and>
         (\<forall>v. get_prop q ''with_cast_names'' = Inr v \<and> \<not> truthy v \<longrightarrow>
            get_prop q2 ''with_cast'' = get_prop q ''with_cast'' \<and>
            get_prop q2 ''with_cast_names'' = Inr v)"
proof -
  let ?endpoint = "if rt = ''movie'' then ''discover/movie'' else ''discover/tv''"
  from assms(2) have qq: "(if q = JUndefined then JObj [] else q) = q"
    by (cases q) (auto simp: languageParam_of_def)
  from assms(1) obtain l0 q1 c1 c2 where
    l: "languageParam_of (if q = JUndefined then JObj [] else q) = Inr l0" and
    r1: "resolve_cast_names w (if q = JUndefined then JObj [] else q) l0 = (Inr q1, c1)" and
    r2: "resolve_keyword_names w q1 = (Inr q2, c2)" and
    u: "build_url w ?endpoint l0 q2 = Inr url"
    by (rule prepare_request_steps)
  from l assms(2) qq have ll: "l0 = lang" by simp
  from r1 qq ll have r1': "resolve_cast_names w q lang = (Inr q1, c1)" by simp
  note b = resolve_keyword_names_result[OF r2]
  have 1: "build_url w ?endpoint lang q2 = Inr url"
    using u ll by simp
  have e: "?endpoint = ''discover/movie'' \<or> ?endpoint = ''discover/tv''" by simp
  have 2: "''with_cast_names'' \<notin> set (url_param_names url) \<and>
           ''with_keywords_names'' \<notin> set (url_param_names url)"
    if "to_string lang = Inr l" "CHR ''&'' \<notin> set l" "CHR ''&'' \<notin> set (TMDB_API_KEY w)" for l
    using build_url_no_name_fields[OF 1 e that] .
  have 3: "fst (fetchActorIdsByNames w (map trim (split_on (CHR '','') s)) lang) =
              concat (map (\<lambda>n. case personUrl w n lang of
                                 Inl e \<Rightarrow> []
                               | Inr u \<Rightarrow> first_id (axios_get w u))
                       (map trim (split_on (CHR '','') s))) \<and>
            (if fst (fetchActorIdsByNames w (map trim (split_on (CHR '','') s)) lang) \<noteq> []
             then \<exists>joined.
                    js_join '','' (fst (fetchActorIdsByNames w (map trim (split_on (CHR '','') s)) lang)) =
                      Inr joined \<and>
                    get_prop q2 ''with_cast'' = Inr (JStr joined)
             else get_prop q2 ''with_cast'' = get_prop q ''with_cast'') \<and>
            get_prop q2 ''with_cast_names'' = Inr JUndefined"
    if h: "get_prop q ''with_cast_names'' = Inr (JStr s)" "s \<noteq> []" for s
  proof -
    let ?ids = "fst (fetchActorIdsByNames w (map trim (split_on (CHR '','') s)) lang)"
    note r = resolve_cast_names_string[OF h r1']
    have t: "truthy (JStr s)" using h(2) by simp
    have p: "\<And>k v. get_prop (put_prop q ''with_cast'' v) k = (if k = ''with_cast'' then Inr v else get_prop q k)"
      using get_prop_put[OF h(1) t] by simp
    have c: "get_prop q1 ''with_cast_names'' = Inr JUndefined \<and>
          (if ?ids \<noteq> [] then \<exists>joined. js_join '','' ?ids = Inr joined \<and>
                                  get_prop q1 ''with_cast'' = Inr (JStr joined)
           else get_prop q1 ''with_cast'' = get_prop q ''with_cast'')"
    proof (cases "?ids \<noteq> []")
      case True
      with r obtain joined where j: "js_join '','' ?ids = Inr joined" and
        q1: "q1 = delete_prop (put_prop q ''with_cast'' (JStr joined)) ''with_cast_names''"
        by auto
      have "get_prop (put_prop q ''with_cast'' (JStr joined)) ''with_cast_names'' = Inr (JStr s)"
        using p h(1) by simp
      from get_prop_delete[OF this] True q1 p j show ?thesis by simp
    next
      case False
      with r have "q1 = delete_prop q ''with_cast_names''" by simp
      with get_prop_delete[OF h(1)] False show ?thesis by simp
    qed
    note c1 = c[THEN conjunct1] and c2 = c[THEN conjunct2]
    have f: "?ids = concat (map (\<lambda>n. case personUrl w n lang of
                                 Inl e \<Rightarrow> []
                               | Inr u \<Rightarrow> first_id (axios_get w u))
                       (map trim (split_on (CHR '','') s)))"
      by (rule fetchActorIds_per_name)
    have g1: "get_prop q2 ''with_cast'' = get_prop q1 ''with_cast''" using b by simp
    have g2: "get_prop q2 ''with_cast_names'' = get_prop q1 ''with_cast_names''" using b by simp
    show ?thesis unfolding g1 g2 by (intro conjI f c1 c2)
  qed
  have 4: "get_prop q2 ''with_cast'' = get_prop q ''with_cast'' \<and> get_prop q2 ''with_cast_names'' = Inr v"
    if h: "get_prop q ''with_cast_names'' = Inr v" "\<not> truthy v" for v
  proof -
    from resolve_cast_names_falsy[OF h, of w lang] r1' have "q1 = q" by simp
    with b h(1) show ?thesis by simp
  qed
  from 1 2 3 4 show ?thesis by blast
qed

theorem cast_names_resolved_witness:
  "prepare_request cast_world cast_query ''movie'' =
     (Inr (''https://api.themoviedb.org/3/discover/movie?api_key=k&language=en-US&with_cast=31'',
           JObj [(''with_cast'', JStr ''31'')]),
      [Get ''https://api.themoviedb.org/3/search/person?api_key=k&query=Tom%20Hanks&language=en-US&include_adult=false'',
       Get ''https://api.themoviedb.org/3/search/person?api_key=k&query=Nobody&language=en-US&include_adult=false'']) \<and>
   fst (fetchActorIdsByNames cast_world (map trim (split_on (CHR '','') ''Tom Hanks, Nobody''))
          (JStr ''en-US'')) = [JNum ''31''] \<and>
   get_prop (JObj [(''with_cast'', JStr ''31'')]) ''with_cast'' = Inr (JStr ''31'') \<and>
   get_prop (JObj [(''with_cast'', JStr ''31'')]) ''with_cast_names'' = Inr JUndefined \<and>
   ''with_cast_names'' \<notin> set (url_param_names
     ''https://api.themoviedb.org/3/discover/movie?api_key=k&language=en-US&with_cast=31'') \<and>
   ''with_keywords_names'' \<notin> set (url_param_names
     ''https://api.themoviedb.org/3/discover/movie?api_key=k&language=en-US&with_cast=31'') \<and>
   prepare_request offline empty_cast_query ''movie'' =
     (Inr (''https://api.themoviedb.org/3/discover/movie?api_key=k&language=en-US'',
           JObj [(''with_cast_names'', JStr [])]), []) \<and>
   get_prop (JObj [(''with_cast_names'', JStr [])]) ''with_cast'' = get_prop empty_cast_query ''with_cast'' \<and>
   ''with_cast_names'' \<notin> set (url_param_names
     ''https://api.themoviedb.org/3/discover/movie?api_key=k&language=en-US'')"
proof -
  have a: "prepare_request cast_world cast_query ''movie'' =
     (Inr (''https://api.themoviedb.org/3/discover/movie?api_key=k&language=en-US&with_cast=31'',
           JObj [(''with_cast'', JStr ''31'')]),
      [Get ''https://api.themoviedb.org/3/search/person?api_key=k&query=Tom%20Hanks&language=en-US&include_adult=false'',
       Get ''https://api.themoviedb.org/3/search/person?api_key=k&query=Nobody&language=en-US&include_adult=false''])"
    by code_simp
  have b: "get_prop cast_query ''with_cast_names'' = Inr (JStr ''Tom Hanks, Nobody'')"
    by (simp add: cast_query_def)
  have c: "languageParam_of cast_query = Inr (JStr ''en-US'')"
    by (simp add: cast_query_def languageParam_of_def)
  have d: "fst (fetchActorIdsByNames cast_world (map trim (split_on (CHR '','') ''Tom Hanks, Nobody''))
                 (JStr ''en-US'')) = [JNum ''31'']"
    by code_simp
  have e: "js_join '','' [JNum ''31''] = Inr ''31''"
    by (simp add: js_join_def)
  have k: "TMDB_API_KEY cast_world = ''k''" "TMDB_API_KEY offline = ''k''"
    by (simp_all add: cast_world_def offline_def)
  have a': "prepare_request offline empty_cast_query ''movie'' =
     (Inr (''https://api.themoviedb.org/3/discover/movie?api_key=k&language=en-US'',
           JObj [(''with_cast_names'', JStr [])]), [])"
    by code_simp
  have b': "get_prop empty_cast_query ''with_cast_names'' = Inr (JStr [])"
    by (simp add: empty_cast_query_def)
  have c': "languageParam_of empty_cast_query = Inr (JStr ''en-US'')"
    by (simp add: empty_cast_query_def languageParam_of_def)
  from cast_names_resolved_and_removed [OF a c] cast_names_resolved_and_removed [OF a' c']
    a a' b b' d e k show ?thesis
    by simp
qed

section \<open>The executor: a failed discovery request\<close>

lemma personUrl_prefix: "personUrl w n l = Inr u \<Longrightarrow> take 30 u = ''https://api.themoviedb.org/3/s''"
  by (auto simp: personUrl_def split: sum.splits)

lemma keywordUrl_prefix: "take 30 (keywordUrl w n) = ''https://api.themoviedb.org/3/s''"
  by (simp add: keywordUrl_def)

lemma build_url_prefix:
  "build_url w (if rt = ''movie'' then ''discover/movie'' else ''discover/tv'') l q = Inr u \<Longrightarrow>
   take 30 u = ''https://api.themoviedb.org/3/d''"
  by (auto simp: build_url_def split: sum.splits)

lemma actor_calls:
  "c \<in> set (snd (fetchActorIdsByNames w names l)) \<Longrightarrow>
   \<exists>u. c = Get u \<and> take 30 u = ''https://api.themoviedb.org/3/s''"
  by (induction names) (auto simp: Let_def personUrl_prefix split: prod.splits sum.splits)

lemma keyword_calls:
  "c \<in> set (snd (fetchKeywordIdsByNames w names)) \<Longrightarrow>
   \<exists>u. c = Get u \<and> take 30 u = ''https://api.themoviedb.org/3/s''"
  by (induction names) (auto simp: Let_def keywordUrl_prefix split: prod.splits)

lemma resolve_cast_calls:
  assumes "c \<in> set (snd (resolve_cast_names w q l))"
  shows "\<exists>u. c = Get u \<and> take 30 u = ''https://api.themoviedb.org/3/s''"
proof -
  have "snd (resolve_cast_names w q l) = [] \<or>
        (\<exists>s. snd (resolve_cast_names w q l) =
              snd (fetchActorIdsByNames w (map trim (split_on (CHR '','') s)) l))"
    by (auto simp: resolve_cast_names_def Let_def case_prod_beta split: sum.splits jsval.splits)
  with assms show ?thesis using actor_calls by fastforce
qed

lemma resolve_keyword_calls:
  assumes "c \<in> set (snd (resolve_keyword_names w q))"
  shows "\<exists>u. c = Get u \<and> take 30 u = ''https://api.themoviedb.org/3/s''"
proof -
  have "snd (resolve_keyword_names w q) = [] \<or>
        (\<exists>s. snd (resolve_keyword_names w q) =
              snd (fetchKeywordIdsByNames w (map trim (split_on (CHR '','') s))))"
    by (auto simp: resolve_keyword_names_def Let_def case_prod_beta split: sum.splits jsval.splits)
  with assms show ?thesis using keyword_calls by fastforce
qed

lemma prepare_request_calls:
  assumes "prepare_request w q rt = (r, calls)" and "c \<in> set calls"
  shows "\<exists>u. c = Get u \<and> take 30 u = ''https://api.themoviedb.org/3/s''"
proof -
  let ?q = "if q = JUndefined then JObj [] else q"
  show ?thesis
  proof (cases "languageParam_of ?q")
    case (Inl e)
    with assms show ?thesis by (simp add: prepare_request_def Let_def)
  next
    case (Inr l)
    obtain r1 c1 where r1: "resolve_cast_names w ?q l = (r1, c1)"
      by (cases "resolve_cast_names w ?q l")
    have c1: "c \<in> set c1 \<Longrightarrow> ?thesis"
      using resolve_cast_calls[of c w ?q l] r1 by simp
    show ?thesis
    proof (cases r1)
      case (Inl e)
      with assms Inr r1 have "calls = c1" by (simp add: prepare_request_def Let_def)
      with assms(2) c1 show ?thesis by simp
    next
      case q1: (Inr q1)
      obtain r2 c2 where r2: "resolve_keyword_names w q1 = (r2, c2)"
        by (cases "resolve_keyword_names w q1")
      have c2: "c \<in> set c2 \<Longrightarrow> ?thesis"
        using resolve_keyword_calls[of c w q1] r2 by simp
      from assms Inr r1 q1 r2 have "calls = c1 @ c2"
        by (cases r2) (auto simp: prepare_request_def Let_def split: sum.splits)
      with assms(2) c1 c2 show ?thesis by auto
    qed
  qed
qed

lemma prepare_request_url:
  assumes "prepare_request w q rt = (Inr (url, q2), calls)"
  shows "take 30 url = ''https://api.themoviedb.org/3/d''"
proof -
  from assms obtain l where
    "build_url w (if rt = ''movie'' then ''discover/movie'' else ''discover/tv'') l q2 = Inr url"
    by (rule prepare_request_steps)
  then show ?thesis by (rule build_url_prefix)
qed

lemma discovery_requested_once:
  assumes "prepare_request w q rt = (Inr (url, q2), calls)"
  shows "Get url \<notin> set calls"
proof
  assume "Get url \<in> set calls"
  from prepare_request_calls[OF assms this] have "take 30 url = ''https://api.themoviedb.org/3/s''"
    by simp
  with prepare_request_url[OF assms] show False by simp
qed

text \<open>
  Claim C7: when a film or series request reaches the executor and the discovery request
  fails, \<^verbatim>\<open>fetchFromTMDB\<close> returns the empty list; the discovery request is its last call
  and is made once. \<^verbatim>\<open>refineResultsWithAI\<close> then returns, without a call, the fixed sentence
  that names films for a film request and TV shows for a series request, and the endpoint
  answers 200 with that sentence, the empty list, the query and the request type, after
  the classifier's call, the synthesizer's calls, the executor's calls and nothing else.
\<close>

theorem discovery_failure_end_to_end:
  assumes "get_prop (last (m # ms)) ''content'' = Inr um"
      and "fst (classifyRequest w um) = Inr rt" and "rt = ''movie'' \<or> rt = ''tv''"
      and "generateTMDBQuery w st um rt = (Inr q, c2)"
      and "prepare_request w q rt = (Inr (url, q'), calls)"
      and "axios_get w url = Inl e"
  shows "fetchFromTMDB w q rt = (Inr ([], q'), calls @ [Get url]) \<and>
         Get url \<notin> set calls \<and>
         refineResultsWithAI w um [] rt =
           (Inr (if rt = ''movie''
                 then ''I couldn'' @ [CHR 0x27] @
                      ''t find any movies matching your criteria. Please try a different request.''
                 else ''I couldn'' @ [CHR 0x27] @
                      ''t find any TV shows matching your criteria. Please try a different request.''),
            []) \<and>
         respond w st (Some (m # ms)) =
           (Responded 200
              (JObj [(''response'',
                      JStr (if rt = ''movie''
                            then ''I couldn'' @ [CHR 0x27] @
                                 ''t find any movies matching your criteria. Please try a different request.''
                            else ''I couldn'' @ [CHR 0x27] @
                                 ''t find any TV shows matching your criteria. Please try a different request.'')),
                     (''tmdbData'', JArr []), (''queryParams'', q'), (''requestType'', JStr rt)]),
            [Chat (classifier_request um)] @ c2 @ calls @ [Get url])"
proof -
  let ?sentence = "if rt = ''movie''
                 then ''I couldn'' @ [CHR 0x27] @
                      ''t find any movies matching your criteria. Please try a different request.''
                 else ''I couldn'' @ [CHR 0x27] @
                      ''t find any TV shows matching your criteria. Please try a different request.''"
  have f: "fetchFromTMDB w q rt = (Inr ([], q'), calls @ [Get url])"
    using assms(5,6) by (simp add: fetchFromTMDB_def)
  have o: "Get url \<notin> set calls"
    using assms(5) by (rule discovery_requested_once)
  have n: "no_matches rt = ?sentence"
    by (simp add: no_matches_def)
  have r: "refineResultsWithAI w um [] rt = (Inr ?sentence, [])"
    unfolding n[symmetric] by (simp add: refineResultsWithAI_def)
  have c: "classifyRequest w um = (Inr rt, [Chat (classifier_request um)])"
    using assms(2) classify_calls[of w um] by (cases "classifyRequest w um") simp
  have "respond w st (Some (m # ms)) =
           (Responded 200
              (JObj [(''response'', JStr ?sentence), (''tmdbData'', JArr []),
                     (''queryParams'', q'), (''requestType'', JStr rt)]),
            [Chat (classifier_request um)] @ c2 @ calls @ [Get url])"
    using assms(1,3,4) c f r by (simp add: respond_def)
  with f o r show ?thesis by simp
qed

theorem discovery_failure_witness:
  "respond discovery_down cached (Some [user_says ''Recommend a movie'']) =
     (Responded 200
        (JObj [(''response'',
                JStr (''I couldn'' @ [CHR 0x27] @
                      ''t find any movies matching your criteria. Please try a different request.'')),
               (''tmdbData'', JArr []), (''queryParams'', JObj []), (''requestType'', JStr ''movie'')]),
      [Chat (classifier_request (JStr ''Recommend a movie'')),
       Chat (query_request discovery_down cached (JStr ''Recommend a movie'') ''movie''),
       Get ''https://api.themoviedb.org/3/discover/movie?api_key=k&language=en-US'']) \<and>
   respond series_discovery_down cached (Some [user_says ''Recommend a show'']) =
     (Responded 200
        (JObj [(''response'',
                JStr (''I couldn'' @ [CHR 0x27] @
                      ''t find any TV shows matching your criteria. Please try a different request.'')),
               (''tmdbData'', JArr []), (''queryParams'', JObj []), (''requestType'', JStr ''tv'')]),
      [Chat (classifier_request (JStr ''Recommend a show'')),
       Chat (query_request series_discovery_down cached (JStr ''Recommend a show'') ''tv''),
       Get ''https://api.themoviedb.org/3/discover/tv?api_key=k&language=en-US''])"
proof -
  have a: "get_prop (last [user_says ''Recommend a movie'']) ''content'' = Inr (JStr ''Recommend a movie'')"
    by (simp add: user_says_def)
  have b: "fst (classifyRequest discovery_down (JStr ''Recommend a movie'')) = Inr ''movie''"
    by code_simp
  have c: "generateTMDBQuery discovery_down cached (JStr ''Recommend a movie'') ''movie'' =
             (Inr (JObj []), [Chat (query_request discovery_down cached (JStr ''Recommend a movie'') ''movie'')])"
    by code_simp
  have d: "prepare_request discovery_down (JObj []) ''movie'' =
             (Inr (''https://api.themoviedb.org/3/discover/movie?api_key=k&language=en-US'', JObj []), [])"
    by code_simp
  have e: "axios_get discovery_down ''https://api.themoviedb.org/3/discover/movie?api_key=k&language=en-US'' =
             Inl RemoteError"
    by (simp add: discovery_down_def offline_def)
  have a': "get_prop (last [user_says ''Recommend a show'']) ''content'' = Inr (JStr ''Recommend a show'')"
    by (simp add: user_says_def)
  have b': "fst (classifyRequest series_discovery_down (JStr ''Recommend a show'')) = Inr ''tv''"
    by code_simp
  have c': "generateTMDBQuery series_discovery_down cached (JStr ''Recommend a show'') ''tv'' =
             (Inr (JObj []), [Chat (query_request series_discovery_down cached (JStr ''Recommend a show'') ''tv'')])"
    by code_simp
  have d': "prepare_request series_discovery_down (JObj []) ''tv'' =
             (Inr (''https://api.themoviedb.org/3/discover/tv?api_key=k&language=en-US'', JObj []), [])"
    by code_simp
  have e': "axios_get series_discovery_down ''https://api.themoviedb.org/3/discover/tv?api_key=k&language=en-US'' =
             Inl RemoteError"
    by (simp add: series_discovery_down_def discovery_down_def offline_def)
  from discovery_failure_end_to_end [OF a b _ c d e] discovery_failure_end_to_end [OF a' b' _ c' d' e']
  show ?thesis
    by simp
qed

section \<open>The endpoint: validation and the two paths\<close>

text \<open>A body whose message list is absent or empty is answered with status 400 and an error
  message, and nothing is called.\<close>

lemma no_messages_answered_400:
  "body = None \<or> body = Some [] \<Longrightarrow>
   respond w st body = (Responded 400 (JObj [(''error'', JStr ''No messages provided'')]), [])"
  by (auto simp: respond_def)

text \<open>The content of a last message that is \<^verbatim>\<open>null\<close> cannot be read; it is read before the
  \<^verbatim>\<open>try\<close>, so the handler's promise rejects and no answer is sent.\<close>

lemma respond_unreadable:
  "get_prop (last (m # ms)) ''content'' = Inl e \<Longrightarrow> respond w st (Some (m # ms)) = (Rejected e, [])"
  by (simp add: respond_def)

text \<open>Every other body is answered with 200 or with the generic 500.\<close>

lemma respond_readable:
  assumes "get_prop (last (m # ms)) ''content'' = Inr um"
  shows "(\<exists>payload. fst (respond w st (Some (m # ms))) = Responded 200 payload) \<or>
         fst (respond w st (Some (m # ms))) =
           Responded 500 (JObj [(''error'', JStr ''Failed to complete the response.'')])"
proof -
  obtain rt where c: "classifyRequest w um = (Inr rt, [Chat (classifier_request um)])"
    using classify_cases by blast
  show ?thesis
  proof (cases "rt = ''movie'' \<or> rt = ''tv''")
    case False
    obtain a where n: "generateNormalResponse w (m # ms) = (Inr a, [Chat (assistant_request (m # ms))])"
      using normal_cases by blast
    from False assms c n show ?thesis by (simp add: respond_def)
  next
    case True
    obtain q c2 where g: "generateTMDBQuery w st um rt = (Inr q, c2)"
      using generate_cases by blast
    show ?thesis
    proof (cases "fetchFromTMDB w q rt")
      case (Pair r c3)
      show ?thesis
      proof (cases r)
        case (Inl e)
        with True assms c g Pair show ?thesis by (simp add: respond_def)
      next
        case (Inr res)
        obtain items q' where i: "res = (items, q')" by (cases res)
        obtain a c4 where rf: "refineResultsWithAI w um items rt = (Inr a, c4)"
          using refine_cases by blast
        from True assms c g Pair Inr i rf show ?thesis by (simp add: respond_def)
      qed
    qed
  qed
qed

lemma respond_readable_example:
  "get_prop (last [user_says ''hello'']) ''content'' = Inr (JStr ''hello'') \<and>
   fst (respond offline cached (Some [user_says ''hello''])) =
     Responded 200
       (JObj [(''response'',
               JStr (''Sorry, I couldn'' @ [CHR 0x27] @ ''t process your request at the moment.''))])"
  by code_simp

text \<open>
  Claim C9 does not hold of the code. The validation answers 400 to a body without
  messages, but it is not the only failure beside the generic 500: the handler reads the
  content of the last message before its \<^verbatim>\<open>try\<close> begins, so on a message list that ends
  with \<^verbatim>\<open>null\<close> it throws where nothing catches, and the request gets no answer at all,
  neither 400 nor 500, and no pipeline step runs.
\<close>

theorem null_last_message_is_unanswered:
  "respond offline cached (Some [JNull]) = (Rejected TypeError, []) \<and>
   respond offline cached (Some [user_says ''hello'', JNull]) = (Rejected TypeError, [])"
  by code_simp

lemma respond_recommendation:
  assumes "get_prop (last (m # ms)) ''content'' = Inr um"
      and "fst (classifyRequest w um) = Inr rt" and "rt = ''movie'' \<or> rt = ''tv''"
  shows "respond w st (Some (m # ms)) =
     (case generateTMDBQuery w st um rt of
        (Inl e, c2) \<Rightarrow> (Responded 500 (JObj [(''error'', JStr ''Failed to complete the response.'')]),
                         [Chat (classifier_request um)] @ c2)
      | (Inr queryParams, c2) \<Rightarrow>
          (case fetchFromTMDB w queryParams rt of
             (Inl e, c3) \<Rightarrow> (Responded 500 (JObj [(''error'', JStr ''Failed to complete the response.'')]),
                              [Chat (classifier_request um)] @ c2 @ c3)
           | (Inr (tmdbResults, queryParams'), c3) \<Rightarrow>
               (case refineResultsWithAI w um tmdbResults rt of
                  (Inl e, c4) \<Rightarrow> (Responded 500 (JObj [(''error'', JStr ''Failed to complete the response.'')]),
                                   [Chat (classifier_request um)] @ c2 @ c3 @ c4)
                | (Inr refinedAnswer, c4) \<Rightarrow>
                    (Responded 200
                       (JObj [(''response'', JStr refinedAnswer), (''tmdbData'', JArr tmdbResults),
                              (''queryParams'', queryParams'), (''requestType'', JStr rt)]),
                     [Chat (classifier_request um)] @ c2 @ c3 @ c4))))"
proof -
  have c: "classifyRequest w um = (Inr rt, [Chat (classifier_request um)])"
    using assms(2) classify_calls[of w um] by (cases "classifyRequest w um") simp
  show ?thesis
    using assms(1,3) c by (simp add: respond_def)
qed

text \<open>
  Claim C10: two non-empty histories whose last messages have the same content, classified
  as a film or series request, get the same answer after the same remote calls: the
  recommendation path reads nothing else of the history.
\<close>

theorem recommendation_reads_last_message_only:
  assumes "m1 \<noteq> []" and "m2 \<noteq> []"
      and "get_prop (last m1) ''content'' = get_prop (last m2) ''content''"
      and "get_prop (last m1) ''content'' = Inr um"
      and "fst (classifyRequest w um) = Inr rt" and "rt = ''movie'' \<or> rt = ''tv''"
  shows "respond w st (Some m1) = respond w st (Some m2)"
proof -
  obtain a as where m1: "m1 = a # as" using assms(1) by (cases m1) auto
  obtain b bs where m2: "m2 = b # bs" using assms(2) by (cases m2) auto
  have "respond w st (Some (a # as)) = respond w st (Some (b # bs))"
    using assms(3,4,5,6) unfolding m1 m2
    by (simp only: respond_recommendation[of a as um w rt st] respond_recommendation[of b bs um w rt st])
  then show ?thesis by (simp add: m1 m2)
qed

theorem recommendation_reads_last_message_witness:
  "respond discovery_down cached (Some [user_says ''Hello'', user_says ''Recommend a movie'']) =
   respond discovery_down cached (Some [user_says ''Recommend a movie''])"
proof -
  have a: "get_prop (last [user_says ''Hello'', user_says ''Recommend a movie'']) ''content'' =
           get_prop (last [user_says ''Recommend a movie'']) ''content''"
    by simp
  have b: "get_prop (last [user_says ''Hello'', user_says ''Recommend a movie'']) ''content'' =
           Inr (JStr ''Recommend a movie'')"
    by (simp add: user_says_def)
  have c: "fst (classifyRequest discovery_down (JStr ''Recommend a movie'')) = Inr ''movie''"
    by code_simp
  from recommendation_reads_last_message_only [OF _ _ a b c, where st = cached] show ?thesis
    by simp
qed

text \<open>The other path does read the history: with the same last message, a longer history
  changes the request to the model, and here the answer.\<close>

lemma general_response_reads_history:
  "get_prop (last [user_says ''Hello'', user_says ''Tell me a joke'']) ''content'' =
   get_prop (last [user_says ''Tell me a joke'']) ''content'' \<and>
   respond counting_world cached (Some [user_says ''Hello'', user_says ''Tell me a joke'']) \<noteq>
   respond counting_world cached (Some [user_says ''Tell me a joke''])"
  by code_simp

end
